theory Spec2Isabelle
  imports Complex_Main
begin

section \<open>Conventions of the embedding\<close>

text \<open>
  The program is Python over numpy. Floating-point numbers are modelled as real numbers
  (no rounding, no overflow, no NaN), Python integers as \<open>int\<close>, numpy arrays and
  Python lists as HOL lists. Every \<^verbatim>\<open>raise\<close> of the source and every failing
  index, key or division the interpreter would turn into an exception is a value
  \<open>Inl e\<close> of the result type \<open>error + 'a\<close>; a mutated object is returned updated.

  The source raises \<^verbatim>\<open>ValueError(err_str)\<close> for every configuration error; the
  constructor \<open>ConfigurationError\<close> carries which of these raises it was.
\<close>

datatype config_error =
    UnrecognizedBoundary
  | DxGreaterThanThickness nat
  | SingleNodeLayers "nat list"
  | MissingDSCRate
  | MultipleControlVolumes
  | SpeciesCountMismatch
  | MassFractionSum
  | CellDoesNotExist int int
  | CellNumberTooSmall int
  | NoReactionSystem nat

datatype error =
    ConfigurationError config_error
  | ZeroDivisionError
  | IndexError
  | KeyError
  | TypeError
  | AttributeError
  | NumpyValueError
  | NonFiniteFloat
  | ExternalError

subsection \<open>numpy element access\<close>

text \<open>
  \<^verbatim>\<open>a[i]\<close> on a one-dimensional array of length \<open>n\<close>: an index in \<open>-n \<le> i < 0\<close>
  counts from the end, any index outside \<open>-n \<le> i < n\<close> raises IndexError.
\<close>

definition np_index :: "nat \<Rightarrow> int \<Rightarrow> error + nat" where
  "np_index n i =
     (let j = (if i < 0 then i + int n else i)
      in if 0 \<le> j \<and> j < int n then Inr (nat j) else Inl IndexError)"

definition np_get :: "real list \<Rightarrow> int \<Rightarrow> error + real" where
  "np_get a i = (case np_index (length a) i of Inl e \<Rightarrow> Inl e | Inr k \<Rightarrow> Inr (a ! k))"

text \<open>\<^verbatim>\<open>a[i] += v\<close>\<close>

definition np_iadd :: "real list \<Rightarrow> int \<Rightarrow> real \<Rightarrow> error + real list" where
  "np_iadd a i v =
     (case np_index (length a) i of Inl e \<Rightarrow> Inl e | Inr k \<Rightarrow> Inr (a[k := a ! k + v]))"

text \<open>\<^verbatim>\<open>a[i] -= v\<close>\<close>

definition np_isub :: "real list \<Rightarrow> int \<Rightarrow> real \<Rightarrow> error + real list" where
  "np_isub a i v =
     (case np_index (length a) i of Inl e \<Rightarrow> Inl e | Inr k \<Rightarrow> Inr (a[k := a ! k - v]))"

section \<open>Boundary conditions (boundary\_types.py)\<close>

text \<open>
  The equation system is an external object; the boundary terms touch only its four
  arrays \<^verbatim>\<open>LHS_c\<close>, \<^verbatim>\<open>RHS\<close>, \<^verbatim>\<open>J_c\<close> and \<^verbatim>\<open>F\<close>.
\<close>

record eqn_sys =
  LHS_c :: "real list"
  RHS :: "real list"
  J_c :: "real list"
  F :: "real list"

text \<open>
  Every boundary-condition object carries a \<^verbatim>\<open>name\<close>; \<^verbatim>\<open>class end_bc\<close> is the
  object built by \<^verbatim>\<open>__init__(dx_arr, my_end)\<close>. The classes \<^verbatim>\<open>end_convection\<close>,
  \<^verbatim>\<open>ext_convection\<close> and \<^verbatim>\<open>ext_radiation\<close> are not part of this development.
\<close>

record bc_base =
  name :: string

record end_bc = bc_base +
  dx_arr :: "real list"
  n_tot :: nat
  n_ind :: int
  k_ind :: int

definition end_bc_init :: "real list \<Rightarrow> string \<Rightarrow> error + end_bc" where
  "end_bc_init dxs my_end =
     (if my_end = ''Left'' then
        Inr \<lparr>name = ''end'', dx_arr = dxs, n_tot = length dxs, n_ind = 0, k_ind = 0\<rparr>
      else if my_end = ''Right'' then
        Inr \<lparr>name = ''end'', dx_arr = dxs, n_tot = length dxs,
             n_ind = int (length dxs) - 1, k_ind = int (length dxs) - 2\<rparr>
      else Inl (ConfigurationError UnrecognizedBoundary))"

subsection \<open>end\_flux\<close>

text \<open>An \<^verbatim>\<open>end_flux\<close> object after \<^verbatim>\<open>set_params(flux)\<close>.\<close>

record end_flux = end_bc +
  flux :: real

definition end_flux_set_params :: "end_bc \<Rightarrow> real \<Rightarrow> end_flux" where
  "end_flux_set_params b q = end_bc.extend (b\<lparr>name := name b @ ''_flux''\<rparr>) \<lparr>flux = q\<rparr>"

definition end_flux_apply :: "end_flux \<Rightarrow> eqn_sys \<Rightarrow> 'mm \<Rightarrow> error + eqn_sys" where
  "end_flux_apply b es mat_man =
     (case np_iadd (RHS es) (n_ind b) (flux b) of
        Inl e \<Rightarrow> Inl e
      | Inr r \<Rightarrow> Inr (es\<lparr>RHS := r\<rparr>))"

definition end_flux_apply_operator ::
  "end_flux \<Rightarrow> eqn_sys \<Rightarrow> 'mm \<Rightarrow> real list \<Rightarrow> error + eqn_sys" where
  "end_flux_apply_operator b es mat_man T =
     (case np_iadd (RHS es) (n_ind b) (flux b) of
        Inl e \<Rightarrow> Inl e
      | Inr r \<Rightarrow> Inr (es\<lparr>RHS := r\<rparr>))"

subsection \<open>end\_radiation\<close>

text \<open>An \<^verbatim>\<open>end_radiation\<close> object after \<^verbatim>\<open>set_params(eps, T)\<close>.\<close>

record end_radiation = end_bc +
  sigma_eps :: real
  T_ext_4 :: real

definition end_radiation_set_params :: "end_bc \<Rightarrow> real \<Rightarrow> real \<Rightarrow> end_radiation" where
  "end_radiation_set_params b eps T =
     end_bc.extend (b\<lparr>name := name b @ ''_radiation''\<rparr>)
       \<lparr>sigma_eps = (567 / 10 ^ 10) * eps, T_ext_4 = T ^ 4\<rparr>"

definition end_radiation_apply ::
  "end_radiation \<Rightarrow> eqn_sys \<Rightarrow> 'mm \<Rightarrow> real list \<Rightarrow> error + eqn_sys" where
  "end_radiation_apply b es mat_man T =
     (case np_get T (n_ind b) of
        Inl e \<Rightarrow> Inl e
      | Inr t \<Rightarrow>
          (case np_iadd (J_c es) (n_ind b) (sigma_eps b * 4 * t ^ 3) of
             Inl e \<Rightarrow> Inl e
           | Inr j \<Rightarrow>
               (case np_iadd (F es) (n_ind b) (sigma_eps b * (t ^ 4 - T_ext_4 b)) of
                  Inl e \<Rightarrow> Inl e
                | Inr f \<Rightarrow> Inr (es\<lparr>J_c := j, F := f\<rparr>))))"

definition end_radiation_apply_operator ::
  "end_radiation \<Rightarrow> eqn_sys \<Rightarrow> 'mm \<Rightarrow> real list \<Rightarrow> error + eqn_sys" where
  "end_radiation_apply_operator b es mat_man T =
     (case np_get T (n_ind b) of
        Inl e \<Rightarrow> Inl e
      | Inr t \<Rightarrow>
          (case np_isub (RHS es) (n_ind b) (sigma_eps b * (t ^ 4 - T_ext_4 b)) of
             Inl e \<Rightarrow> Inl e
           | Inr r \<Rightarrow> Inr (es\<lparr>RHS := r\<rparr>)))"

subsection \<open>timed\_boundary\<close>

text \<open>
  The gate wraps any boundary-condition object and forwards \<^verbatim>\<open>*args\<close> to it. The
  wrapped object's method is the parameter \<open>f\<close>: it takes the wrapped object, the
  equation system (the argument the call mutates) and the remaining arguments.
  \<^verbatim>\<open>tot_time\<close> does not exist before \<^verbatim>\<open>set_time\<close> is called.
\<close>

record 'z timed_boundary =
  bc :: "'z bc_base_scheme"
  off_time :: real
  tot_time :: "real option"

definition timed_boundary_init :: "'z bc_base_scheme \<Rightarrow> real \<Rightarrow> 'z timed_boundary" where
  "timed_boundary_init b off =
     \<lparr>bc = b\<lparr>name := name b @ ''_timed''\<rparr>, off_time = off, tot_time = None\<rparr>"

definition set_time :: "'z timed_boundary \<Rightarrow> real \<Rightarrow> 'z timed_boundary" where
  "set_time tb t = tb\<lparr>tot_time := Some t\<rparr>"

definition timed_boundary_apply ::
  "('z bc_base_scheme \<Rightarrow> eqn_sys \<Rightarrow> 'a \<Rightarrow> error + eqn_sys) \<Rightarrow>
   'z timed_boundary \<Rightarrow> eqn_sys \<Rightarrow> 'a \<Rightarrow> error + eqn_sys" where
  "timed_boundary_apply f tb es args =
     (case tot_time tb of
        None \<Rightarrow> Inl AttributeError
      | Some t \<Rightarrow> if off_time tb - t > 1 / 10 ^ 14 then f (bc tb) es args else Inr es)"

definition timed_boundary_apply_operator ::
  "('z bc_base_scheme \<Rightarrow> eqn_sys \<Rightarrow> 'a \<Rightarrow> error + eqn_sys) \<Rightarrow>
   'z timed_boundary \<Rightarrow> eqn_sys \<Rightarrow> 'a \<Rightarrow> error + eqn_sys" where
  "timed_boundary_apply_operator f tb es args =
     (case tot_time tb of
        None \<Rightarrow> Inl AttributeError
      | Some t \<Rightarrow> if off_time tb - t > 1 / 10 ^ 14 then f (bc tb) es args else Inr es)"

section \<open>Python lists and loops\<close>

text \<open>\<^verbatim>\<open>xs[i]\<close> for a loop index \<open>i \<ge> 0\<close> on a list: IndexError past the end.\<close>

definition py_nth :: "'a list \<Rightarrow> nat \<Rightarrow> error + 'a" where
  "py_nth xs i = (if i < length xs then Inr (xs ! i) else Inl IndexError)"

text \<open>
  A \<^verbatim>\<open>for\<close> loop whose body may raise: the body takes the loop variable and the
  state so far, and the first exception ends the loop.
\<close>

fun efold :: "('a \<Rightarrow> 's \<Rightarrow> error + 's) \<Rightarrow> 'a list \<Rightarrow> 's \<Rightarrow> error + 's" where
  "efold f [] s = Inr s"
| "efold f (x # xs) s = (case f x s of Inl e \<Rightarrow> Inl e | Inr s' \<Rightarrow> efold f xs s')"

section \<open>Grid builder (grid.py)\<close>

text \<open>
  \<^verbatim>\<open>np.round(x, 0)\<close> rounds to the nearest integer and a tie to the even neighbour;
  \<^verbatim>\<open>int\<close> turns the result into a Python integer.
\<close>

definition np_round :: "real \<Rightarrow> int" where
  "np_round x =
     (let f = \<lfloor>x\<rfloor>; r = x - of_int f
      in if r < 1 / 2 then f else if 1 / 2 < r then f + 1 else if even f then f else f + 1)"

text \<open>The table handed over by the parser, and the object after \<^verbatim>\<open>set_table\<close>.\<close>

record tab_dict =
  tab_Material_Name :: "string list"
  tab_dx :: "real list"
  tab_Thickness :: "real list"

record layer_table =
  layer_names :: "string list"
  layer_dx :: "real list"
  layer_thickness :: "real list"

definition set_table :: "tab_dict \<Rightarrow> layer_table" where
  "set_table td =
     \<lparr>layer_names = tab_Material_Name td, layer_dx = tab_dx td,
      layer_thickness = tab_Thickness td\<rparr>"

text \<open>The variables the first loop of \<^verbatim>\<open>setup_grid\<close> builds up.\<close>

record layer_acc =
  acc_n_tot :: int
  acc_mat_nodes :: "string list"
  acc_nodes_per_layer :: "int list"
  acc_mint_list :: "int list"
  acc_first_node_list :: "int list"
  acc_dx_list :: "real list"

definition layer_acc0 :: layer_acc where
  "layer_acc0 = \<lparr>acc_n_tot = 0, acc_mat_nodes = [], acc_nodes_per_layer = [],
                 acc_mint_list = [], acc_first_node_list = [], acc_dx_list = []\<rparr>"

text \<open>
  The body of the loop over the material layers. The table entries are Python numbers, so
  both divisions raise ZeroDivisionError on a zero divisor.
\<close>

definition layer_body :: "layer_table \<Rightarrow> nat \<Rightarrow> layer_acc \<Rightarrow> error + layer_acc" where
  "layer_body tb i s =
     (case py_nth (layer_thickness tb) i of
        Inl e \<Rightarrow> Inl e
      | Inr T \<Rightarrow>
     (case py_nth (layer_dx tb) i of
        Inl e \<Rightarrow> Inl e
      | Inr d \<Rightarrow>
          if T < d then Inl (ConfigurationError (DxGreaterThanThickness (i + 1)))
          else if d = 0 then Inl ZeroDivisionError
          else
            let n_m = np_round (T / d) in
            if n_m = 0 then Inl ZeroDivisionError
            else
              (case py_nth (layer_names tb) i of
                 Inl e \<Rightarrow> Inl e
               | Inr nm \<Rightarrow>
                   Inr \<lparr>acc_n_tot = acc_n_tot s + n_m,
                        acc_mat_nodes = acc_mat_nodes s @ replicate (nat n_m) nm,
                        acc_nodes_per_layer = acc_nodes_per_layer s @ [n_m],
                        acc_mint_list = acc_mint_list s @ [acc_n_tot s + n_m - 1],
                        acc_first_node_list = acc_first_node_list s @ [acc_n_tot s],
                        acc_dx_list = acc_dx_list s @ [T / of_int n_m]\<rparr>)))"

text \<open>The body of the loop that spreads the layer spacings over the nodes.\<close>

definition dx_body ::
  "real list \<Rightarrow> int list \<Rightarrow> nat \<Rightarrow> nat \<times> real list \<Rightarrow> error + nat \<times> real list" where
  "dx_body dx_list mint i s =
     (case s of (m, arr) \<Rightarrow>
        (case py_nth dx_list m of
           Inl e \<Rightarrow> Inl e
         | Inr v \<Rightarrow>
             (case py_nth mint m of
                Inl e \<Rightarrow> Inl e
              | Inr b \<Rightarrow> Inr (if int i = b then m + 1 else m, arr[i := v]))))"

text \<open>The node count \<^verbatim>\<open>n_m\<close> the loop computes for layer \<open>i\<close>.\<close>

definition nodes_of :: "layer_table \<Rightarrow> nat \<Rightarrow> int" where
  "nodes_of tb i = np_round (layer_thickness tb ! i / layer_dx tb ! i)"

record grid_manager = layer_table +
  n_layers :: nat
  n_tot :: int
  mint_list :: "int list"
  first_node_list :: "int list"
  mat_nodes :: "string list"
  dx_arr :: "real list"
  internal_bounds :: "(int \<times> int) list"
  k_bounds :: "(int \<times> int) list"
  x_node :: "real list"

text \<open>
  \<^verbatim>\<open>setup_grid\<close>. After the first loop every list built there has one entry per
  layer, so the reads \<open>mint ! m\<close> of the bounds loop are in range; \<^verbatim>\<open>np.zeros\<close> refuses
  a negative size.
\<close>

definition setup_grid :: "layer_table \<Rightarrow> error + grid_manager" where
  "setup_grid tb =
     (let nl = length (layer_names tb) in
      case efold (layer_body tb) [0..<nl] layer_acc0 of
        Inl e \<Rightarrow> Inl e
      | Inr s \<Rightarrow>
          let single_node_layers =
                (if nl > 1 then filter (\<lambda>i. acc_nodes_per_layer s ! i \<le> 1) [0..<nl] else []) in
          if length single_node_layers > 0
          then Inl (ConfigurationError (SingleNodeLayers single_node_layers))
          else if acc_n_tot s < 0 then Inl NumpyValueError
          else
            (case efold (dx_body (acc_dx_list s) (acc_mint_list s)) [0..<nat (acc_n_tot s)]
                    (0, replicate (nat (acc_n_tot s)) 0) of
               Inl e \<Rightarrow> Inl e
             | Inr (m, dxs) \<Rightarrow>
                 (case py_nth (acc_mint_list s) 0 of
                    Inl e \<Rightarrow> Inl e
                  | Inr mint0 \<Rightarrow>
                      Inr (layer_table.extend tb
                        \<lparr>n_layers = nl,
                         n_tot = acc_n_tot s,
                         mint_list = acc_mint_list s,
                         first_node_list = acc_first_node_list s,
                         mat_nodes = acc_mat_nodes s,
                         dx_arr = dxs,
                         internal_bounds = (1, mint0) #
                           map (\<lambda>m. (acc_mint_list s ! (m - 1) + 2, acc_mint_list s ! m)) [1..<nl],
                         k_bounds = (0, mint0) #
                           map (\<lambda>m. (acc_mint_list s ! (m - 1) + 1, acc_mint_list s ! m)) [1..<nl],
                         x_node = map (\<lambda>i. 1 / 2 * dxs ! i + sum_list (take i dxs))
                                    [0..<nat (acc_n_tot s)]\<rparr>))))"

section \<open>Reaction manager (reaction.py)\<close>

subsection \<open>Collaborators that are not part of the three source files\<close>

text \<open>
  The \<^verbatim>\<open>Other\<close> block of the input: a key that may be absent is an option.
\<close>

record other_opts =
  Y_Dimension :: "real option"
  Z_Dimension :: "real option"
  DSC_Mode :: "int option"
  DSC_Rate :: "real option"
  Reaction_Only :: "bool option"

text \<open>The species block of the input.\<close>

record spec_dict =
  Initial_Mass_Fraction :: "real list"
  Names :: "string list"
  Material_Name :: string
  Molecular_Weights :: "real list"

text \<open>
  The material manager is an external object: \<^verbatim>\<open>get_material\<close> may raise, and
  \<^verbatim>\<open>layer_names\<close> (field \<open>mat_layer_names\<close>) is its own list of the layers' materials.
\<close>

record material =
  rho :: real
  cp :: real

record mat_man =
  get_material :: "string \<Rightarrow> error + material"
  mat_layer_names :: "string list"

record material_info =
  info_Names :: "string list"
  info_Molecular_Weights :: "(string \<times> real) list"
  info_rho :: real
  info_cp :: real

text \<open>
  One entry of the reaction block: the optional keys \<^verbatim>\<open>Type\<close> and
  \<^verbatim>\<open>Active Cells\<close>, and whatever else the model factory reads.
\<close>

record 'p rxn_info =
  rxn_Type :: "string option"
  Active_Cells :: "int list option"
  rxn_params :: 'p

text \<open>
  A two-dimensional numpy integer array, with its shape. \<^verbatim>\<open>a[i, :]\<close> is row \<open>i\<close>.
\<close>

record int_array2 =
  shape :: "nat \<times> nat"
  rows :: "int list list"

text \<open>
  The object \<^verbatim>\<open>reaction_system.reaction_system(frac_mat, model_list, rho_cp, dsc_info)\<close>
  is determined by the four arguments of its constructor; the fractional-conversion
  matrix is kept as the list of its columns.
\<close>

record 'm reaction_system =
  sys_frac_cols :: "real list list"
  sys_model_list :: "'m list"
  sys_rho_cp :: real
  sys_dsc_info :: "int \<times> real"

text \<open>
  What the other modules provide: the model factory, the three methods of a reaction
  system the manager calls (\<open>'t\<close> is the time array, \<open>'o\<close> the solver options
  \<^verbatim>\<open>dt0, atol, rtol, nsteps\<close>, \<open>'st\<close> the solver status), each of which may raise.
\<close>

record ('p, 'm, 't, 'o, 'st) collaborators =
  rxn_model_factory :: "'p rxn_info \<Rightarrow> material_info \<Rightarrow> error + 'm \<times> real list"
  solve_ode_node :: "'m reaction_system \<Rightarrow> 't \<Rightarrow> real list \<Rightarrow> 'o \<Rightarrow> error + real list list \<times> 'st"
  get_rates :: "'m reaction_system \<Rightarrow> real list \<Rightarrow> error + real list"
  check_complete :: "'m reaction_system \<Rightarrow> real list \<Rightarrow> error + bool"

subsection \<open>Dictionaries of per-node arrays, slices, deletion\<close>

text \<open>\<^verbatim>\<open>d[key][i]\<close> and \<^verbatim>\<open>d[key][i] = v\<close> for a node index \<open>i \<ge> 0\<close>.\<close>

definition dict_get_at :: "(string \<rightharpoonup> real list) \<Rightarrow> string \<Rightarrow> nat \<Rightarrow> error + real" where
  "dict_get_at d key i =
     (case d key of
        None \<Rightarrow> Inl KeyError
      | Some a \<Rightarrow> if i < length a then Inr (a ! i) else Inl IndexError)"

definition dict_set_at ::
  "(string \<rightharpoonup> real list) \<Rightarrow> string \<Rightarrow> nat \<Rightarrow> real \<Rightarrow> error + (string \<rightharpoonup> real list)" where
  "dict_set_at d key i v =
     (case d key of
        None \<Rightarrow> Inl KeyError
      | Some a \<Rightarrow> if i < length a then Inr (d(key \<mapsto> a[i := v])) else Inl IndexError)"

text \<open>\<^verbatim>\<open>a[i] = v\<close> for a node index \<open>i \<ge> 0\<close>.\<close>

definition arr_set :: "real list \<Rightarrow> nat \<Rightarrow> real \<Rightarrow> error + real list" where
  "arr_set a i v = (if i < length a then Inr (a[i := v]) else Inl IndexError)"

text \<open>
  \<^verbatim>\<open>a[lo:hi] = v\<close>: a negative bound counts from the end, and both bounds are clipped
  to the array.
\<close>

definition py_slice_fill :: "int list \<Rightarrow> int \<Rightarrow> int \<Rightarrow> int \<Rightarrow> int list" where
  "py_slice_fill a lo hi v =
     (let n = int (length a);
          l = (if lo < 0 then max (lo + n) 0 else min lo n);
          h = (if hi < 0 then max (hi + n) 0 else min hi n)
      in map (\<lambda>k. if l \<le> int k \<and> int k < h then v else a ! k) [0..<length a])"

text \<open>\<^verbatim>\<open>np.delete(a, idx)\<close> for a list of positions \<open>idx \<ge> 0\<close>.\<close>

definition np_delete :: "'a list \<Rightarrow> nat list \<Rightarrow> error + 'a list" where
  "np_delete a idx =
     (if list_all (\<lambda>k. k < length a) idx
      then Inr (map ((!) a) (filter (\<lambda>k. k \<notin> set idx) [0..<length a]))
      else Inl IndexError)"

text \<open>\<^verbatim>\<open>np.argwhere(a == x).flatten()\<close>\<close>

definition argwhere_eq :: "'a list \<Rightarrow> 'a \<Rightarrow> nat list" where
  "argwhere_eq a x = filter (\<lambda>j. a ! j = x) [0..<length a]"

subsection \<open>Construction and species loading\<close>

text \<open>The manager after \<^verbatim>\<open>__init__(grid_man, other_opts)\<close>.\<close>

record reaction_manager0 =
  species_density :: "string \<rightharpoonup> real list"
  species_rate :: "string \<rightharpoonup> real list"
  n_tot :: int
  mat_nodes :: "string list"
  first_node_list :: "int list"
  cross_area :: real
  dsc_mode :: int
  dsc_rate :: real
  dsc_info :: "int \<times> real"
  rxn_only :: bool
  small_number :: real

definition reaction_manager_init :: "grid_manager \<Rightarrow> other_opts \<Rightarrow> error + reaction_manager0" where
  "reaction_manager_init grid_man opts =
     (case Y_Dimension opts of
        None \<Rightarrow> Inl KeyError
      | Some y \<Rightarrow>
     (case Z_Dimension opts of
        None \<Rightarrow> Inl KeyError
      | Some z \<Rightarrow>
          let mode = (case DSC_Mode opts of None \<Rightarrow> 0 | Some m \<Rightarrow> m) in
          if mode \<noteq> 0 \<and> DSC_Rate opts = None
          then Inl (ConfigurationError MissingDSCRate)
          else
            let rate = (if mode \<noteq> 0 then (case DSC_Rate opts of Some r \<Rightarrow> r | None \<Rightarrow> 0) else 0) in
            if Reaction_Only opts = Some True \<and> grid_manager.n_tot grid_man \<noteq> 1
            then Inl (ConfigurationError MultipleControlVolumes)
            else
              Inr \<lparr>species_density = Map.empty,
                   species_rate = Map.empty,
                   n_tot = grid_manager.n_tot grid_man,
                   mat_nodes = grid_manager.mat_nodes grid_man,
                   first_node_list = grid_manager.first_node_list grid_man,
                   cross_area = y * z,
                   dsc_mode = mode,
                   dsc_rate = rate,
                   dsc_info = (mode, rate),
                   rxn_only = (Reaction_Only opts = Some True),
                   small_number = 1 / 10 ^ 15\<rparr>))"

text \<open>The manager after \<^verbatim>\<open>load_species\<close>.\<close>

record reaction_manager1 = reaction_manager0 +
  mat_name :: string
  rm_rho :: real
  rm_cp :: real
  rho_cp :: real
  n_species :: nat
  species_name_list :: "string list"
  heat_release_rate :: "real list"
  temperature_rate :: "real list"
  rm_material_info :: material_info
  n_cells :: int
  cell_node_key :: "int list"
  active_nodes :: "nat list"
  inactive_node_list :: "nat list"

text \<open>
  The loop over the species: both dictionaries get a fresh array for the name, and the
  density is set on the nodes of the reacting material. A name that occurs twice is
  overwritten, as in a Python dictionary.
\<close>

definition species_body ::
  "reaction_manager0 \<Rightarrow> spec_dict \<Rightarrow> real \<Rightarrow> nat \<Rightarrow>
   (string \<rightharpoonup> real list) \<times> (string \<rightharpoonup> real list) \<Rightarrow>
   error + (string \<rightharpoonup> real list) \<times> (string \<rightharpoonup> real list)" where
  "species_body rm sd rho_v i s =
     (case s of (dens, rate) \<Rightarrow>
        if n_tot rm < 0 then Inl NumpyValueError
        else if length (mat_nodes rm) < nat (n_tot rm) then Inl IndexError
        else
          Inr (dens(Names sd ! i \<mapsto>
                 map (\<lambda>j. if Material_Name sd = mat_nodes rm ! j
                           then Initial_Mass_Fraction sd ! i * rho_v else 0)
                   [0..<nat (n_tot rm)]),
               rate(Names sd ! i \<mapsto> replicate (nat (n_tot rm)) 0)))"

text \<open>
  The loop over the layers of the material manager that numbers the cells of the
  reacting material and writes the cell number on the nodes of each.
\<close>

definition cell_body ::
  "string \<Rightarrow> string list \<Rightarrow> int list \<Rightarrow> nat \<Rightarrow> int \<times> int list \<Rightarrow> error + int \<times> int list" where
  "cell_body nm lnames fnl k s =
     (case s of (nc, key) \<Rightarrow>
        if nm = lnames ! k then
          (case py_nth fnl k of
             Inl e \<Rightarrow> Inl e
           | Inr lo \<Rightarrow>
               (case py_nth fnl (k + 1) of
                  Inl e \<Rightarrow> Inl e
                | Inr hi \<Rightarrow> Inr (nc + 1, py_slice_fill key lo hi (nc + 1))))
        else Inr (nc, key))"

definition load_species :: "reaction_manager0 \<Rightarrow> spec_dict \<Rightarrow> mat_man \<Rightarrow> error + reaction_manager1" where
  "load_species rm sd mm =
     (if length (Initial_Mass_Fraction sd) \<noteq> length (Names sd)
      then Inl (ConfigurationError SpeciesCountMismatch)
      else if \<bar>1 - sum_list (Initial_Mass_Fraction sd)\<bar> > small_number rm
      then Inl (ConfigurationError MassFractionSum)
      else
        (case get_material mm (Material_Name sd) of
           Inl e \<Rightarrow> Inl e
         | Inr my_mat \<Rightarrow>
        (case efold (species_body rm sd (rho my_mat)) [0..<length (Names sd)]
                (species_density rm, species_rate rm) of
           Inl e \<Rightarrow> Inl e
         | Inr (dens, rate) \<Rightarrow>
             if n_tot rm < 0 then Inl NumpyValueError
             else
               let fnl = first_node_list rm @ [n_tot rm] in
               (case efold (cell_body (Material_Name sd) (mat_layer_names mm) fnl)
                       [0..<length (mat_layer_names mm)] (0, replicate (nat (n_tot rm)) 0) of
                  Inl e \<Rightarrow> Inl e
                | Inr (nc, key) \<Rightarrow>
                    Inr (reaction_manager0.extend
                      (rm\<lparr>species_density := dens, species_rate := rate, first_node_list := fnl\<rparr>)
                      \<lparr>mat_name = Material_Name sd,
                       rm_rho = rho my_mat,
                       rm_cp = cp my_mat,
                       rho_cp = rho my_mat * cp my_mat,
                       n_species = length (Names sd),
                       species_name_list = Names sd,
                       heat_release_rate = replicate (nat (n_tot rm)) 0,
                       temperature_rate = replicate (nat (n_tot rm)) 0,
                       rm_material_info =
                         \<lparr>info_Names = Names sd,
                          info_Molecular_Weights = zip (Names sd) (Molecular_Weights sd),
                          info_rho = rho my_mat,
                          info_cp = cp my_mat\<rparr>,
                       n_cells = nc,
                       cell_node_key = key,
                       active_nodes = argwhere_eq (mat_nodes rm) (Material_Name sd),
                       inactive_node_list = []\<rparr>)))))"

subsection \<open>Reaction grouping\<close>

text \<open>
  Modelled from the spec: \<^verbatim>\<open>reaction_system_helper.map_all_systems\<close>, which is not among
  the source files. The spec (Reaction System Grouping) groups the cells by identical
  activation-mask column, each distinct column giving one reaction system, and maps every
  node to the system of its cell; a node that belongs to no cell of the mask (cell key
  outside \<open>1 .. number of cells\<close>) is unassigned, which the data model writes as \<open>-1\<close>.
  The order of the systems is not fixed by the spec; here it is that of \<open>remdups\<close>.
\<close>

definition act_column :: "int_array2 \<Rightarrow> nat \<Rightarrow> int list" where
  "act_column a c = map (\<lambda>r. r ! c) (rows a)"

fun index_of :: "'a \<Rightarrow> 'a list \<Rightarrow> nat" where
  "index_of x [] = 0"
| "index_of x (y # ys) = (if x = y then 0 else Suc (index_of x ys))"

definition map_all_systems :: "int_array2 \<Rightarrow> int list \<Rightarrow> int list \<times> int list list" where
  "map_all_systems active_cells key =
     (let ncells = snd (shape active_cells);
          unique_system_list = remdups (map (act_column active_cells) [0..<ncells])
      in (map (\<lambda>c. if 1 \<le> c \<and> c \<le> int ncells
                     then int (index_of (act_column active_cells (nat (c - 1))) unique_system_list)
                     else - 1) key,
          unique_system_list))"

subsection \<open>Loading the reactions\<close>

text \<open>The manager after \<^verbatim>\<open>load_reactions\<close>.\<close>

record 'm reaction_manager = reaction_manager1 +
  n_rxn :: nat
  model_list :: "'m list"
  node_to_system_map :: "int list"
  reaction_systems :: "'m reaction_system list"

text \<open>
  \<^verbatim>\<open>frac_mat[:, i] = frac_mat_col\<close>: the column must have one entry per species, or a
  single entry that numpy broadcasts.
\<close>

definition assign_column :: "nat \<Rightarrow> real list \<Rightarrow> error + real list" where
  "assign_column ns col =
     (if length col = ns then Inr col
      else if length col = 1 then Inr (replicate ns (col ! 0))
      else Inl NumpyValueError)"

text \<open>The loop over the \<^verbatim>\<open>Active Cells\<close> of one reaction with key \<open>num\<close>.\<close>

definition active_cell_body :: "int \<Rightarrow> int \<Rightarrow> int \<Rightarrow> int list \<Rightarrow> error + int list" where
  "active_cell_body nc num cell_num row =
     (if cell_num > nc then Inl (ConfigurationError (CellDoesNotExist cell_num num))
      else if cell_num < 1 then Inl (ConfigurationError (CellNumberTooSmall num))
      else Inr (row[nat (cell_num - 1) := 1]))"

text \<open>
  The reaction dictionary is an association list with distinct keys; \<open>rxn_nums\<close> are
  its sorted keys. The body of the loop over the reactions works on the fractional
  conversion matrix (as its columns), the model list and the rows of \<^verbatim>\<open>active_cells\<close>.
\<close>

definition reaction_body ::
  "('p, 'm, 't, 'o, 'st) collaborators \<Rightarrow> reaction_manager1 \<Rightarrow> (int \<times> 'p rxn_info) list \<Rightarrow>
   int list \<Rightarrow> nat \<Rightarrow> real list list \<times> 'm list \<times> int list list \<Rightarrow>
   error + real list list \<times> 'm list \<times> int list list" where
  "reaction_body ext rm rxn_dict rxn_nums i s =
     (case s of (frac_cols, models, act_rows) \<Rightarrow>
        (case map_of rxn_dict (rxn_nums ! i) of
           None \<Rightarrow> Inl KeyError
         | Some info0 \<Rightarrow>
             let rxn_info = (if rxn_Type info0 = None
                             then info0\<lparr>rxn_Type := Some ''Basic''\<rparr> else info0) in
             (case rxn_model_factory ext rxn_info (rm_material_info rm) of
                Inl e \<Rightarrow> Inl e
              | Inr (my_rxn_model, frac_mat_col) \<Rightarrow>
             (case assign_column (n_species rm) frac_mat_col of
                Inl e \<Rightarrow> Inl e
              | Inr col \<Rightarrow>
             (case (case Active_Cells rxn_info of
                      None \<Rightarrow> Inr (replicate (nat (n_cells rm)) 1)
                    | Some cells \<Rightarrow>
                        efold (active_cell_body (n_cells rm) (rxn_nums ! i)) cells (act_rows ! i)) of
                Inl e \<Rightarrow> Inl e
              | Inr row \<Rightarrow>
                  Inr (frac_cols[i := col], models @ [my_rxn_model], act_rows[i := row]))))))"

text \<open>
  One reaction system per entry of \<open>unique_system_list\<close>: the models and the columns of the
  reactions the entry flags. Both comprehensions read \<^verbatim>\<open>model_list[j]\<close> and column \<open>j\<close>
  for \<open>j\<close> below the length of the entry.
\<close>

definition build_system ::
  "reaction_manager1 \<Rightarrow> real list list \<Rightarrow> 'm list \<Rightarrow> int list \<Rightarrow> error + 'm reaction_system" where
  "build_system rm frac_cols models tmp_sys =
     (let rxn_inds = filter (\<lambda>j. tmp_sys ! j \<noteq> 0) [0..<length tmp_sys] in
      if list_all (\<lambda>j. j < length models \<and> j < length frac_cols) rxn_inds
      then Inr \<lparr>sys_frac_cols = map ((!) frac_cols) rxn_inds,
                sys_model_list = map ((!) models) rxn_inds,
                sys_rho_cp = rho_cp rm,
                sys_dsc_info = dsc_info rm\<rparr>
      else Inl IndexError)"

fun emap :: "('a \<Rightarrow> error + 'b) \<Rightarrow> 'a list \<Rightarrow> error + 'b list" where
  "emap f [] = Inr []"
| "emap f (x # xs) =
     (case f x of
        Inl e \<Rightarrow> Inl e
      | Inr y \<Rightarrow> (case emap f xs of Inl e \<Rightarrow> Inl e | Inr ys \<Rightarrow> Inr (y # ys)))"

text \<open>
  The loop over the reactions, from the zero matrix, the empty model list and the zero
  activation mask.
\<close>

definition reaction_loop ::
  "('p, 'm, 't, 'o, 'st) collaborators \<Rightarrow> reaction_manager1 \<Rightarrow> (int \<times> 'p rxn_info) list \<Rightarrow>
   error + real list list \<times> 'm list \<times> int list list" where
  "reaction_loop ext rm rxn_dict =
     (let nr = length rxn_dict;
          rxn_nums = sort (map fst rxn_dict)
      in efold (reaction_body ext rm rxn_dict rxn_nums) [0..<nr]
           (replicate nr (replicate (n_species rm) 0), [],
            replicate nr (replicate (nat (n_cells rm)) 0)))"

definition load_reactions ::
  "('p, 'm, 't, 'o, 'st) collaborators \<Rightarrow> reaction_manager1 \<Rightarrow> (int \<times> 'p rxn_info) list \<Rightarrow>
   error + 'm reaction_manager" where
  "load_reactions ext rm rxn_dict =
     (let nr = length rxn_dict in
      if n_cells rm < 0 then Inl NumpyValueError
      else
        (case reaction_loop ext rm rxn_dict of
           Inl e \<Rightarrow> Inl e
         | Inr (frac_cols, models, act_rows) \<Rightarrow>
             (case map_all_systems \<lparr>shape = (nr, nat (n_cells rm)), rows = act_rows\<rparr>
                     (cell_node_key rm) of
                (n2s, unique_system_list) \<Rightarrow>
                  (case emap (build_system rm frac_cols models) unique_system_list of
                     Inl e \<Rightarrow> Inl e
                   | Inr systems \<Rightarrow>
                       Inr (reaction_manager1.extend rm
                         \<lparr>n_rxn = nr,
                          model_list = models,
                          node_to_system_map = n2s,
                          reaction_systems = systems\<rparr>)))))"

subsection \<open>Clearing exhausted nodes\<close>

text \<open>The two inner loops of \<^verbatim>\<open>clear_nodes\<close> for the node \<open>i\<close>.\<close>

definition clear_density_body ::
  "real \<Rightarrow> nat \<Rightarrow> string \<Rightarrow> (string \<rightharpoonup> real list) \<Rightarrow> error + (string \<rightharpoonup> real list)" where
  "clear_density_body small i nm dens =
     (case dict_get_at dens nm i of
        Inl e \<Rightarrow> Inl e
      | Inr v \<Rightarrow> if v < small then dict_set_at dens nm i 0 else Inr dens)"

definition clear_rate_body ::
  "nat \<Rightarrow> string \<Rightarrow> (string \<rightharpoonup> real list) \<Rightarrow> error + (string \<rightharpoonup> real list)" where
  "clear_rate_body i nm rate = dict_set_at rate nm i 0"

text \<open>The body of the loop over \<^verbatim>\<open>inactive_node_list\<close>.\<close>

definition clear_node_body ::
  "nat \<Rightarrow> 'z reaction_manager1_scheme \<Rightarrow> error + 'z reaction_manager1_scheme" where
  "clear_node_body act_ind rm =
     (case py_nth (active_nodes rm) act_ind of
        Inl e \<Rightarrow> Inl e
      | Inr i \<Rightarrow>
     (case efold (clear_density_body (small_number rm) i) (species_name_list rm)
             (species_density rm) of
        Inl e \<Rightarrow> Inl e
      | Inr dens \<Rightarrow>
     (case efold (clear_rate_body i) (species_name_list rm) (species_rate rm) of
        Inl e \<Rightarrow> Inl e
      | Inr rate \<Rightarrow>
     (case arr_set (temperature_rate rm) i 0 of
        Inl e \<Rightarrow> Inl e
      | Inr trate \<Rightarrow>
     (case arr_set (heat_release_rate rm) i 0 of
        Inl e \<Rightarrow> Inl e
      | Inr hrate \<Rightarrow>
          Inr (rm\<lparr>species_density := dens, species_rate := rate,
                  temperature_rate := trate, heat_release_rate := hrate\<rparr>))))))"

definition clear_nodes :: "'z reaction_manager1_scheme \<Rightarrow> error + 'z reaction_manager1_scheme" where
  "clear_nodes rm =
     (case efold clear_node_body (inactive_node_list rm) rm of
        Inl e \<Rightarrow> Inl e
      | Inr rm1 \<Rightarrow>
          (case np_delete (active_nodes rm1) (inactive_node_list rm1) of
             Inl e \<Rightarrow> Inl e
           | Inr act \<Rightarrow> Inr (rm1\<lparr>active_nodes := act, inactive_node_list := []\<rparr>)))"

subsection \<open>Integrating the active nodes\<close>

text \<open>The loops over the species inside the loop over the active nodes.\<close>

definition v_in_body ::
  "(string \<rightharpoonup> real list) \<Rightarrow> string list \<Rightarrow> nat \<Rightarrow> nat \<Rightarrow> real list \<Rightarrow> error + real list" where
  "v_in_body dens names i j v =
     (case dict_get_at dens (names ! j) i of Inl e \<Rightarrow> Inl e | Inr x \<Rightarrow> arr_set v j x)"

definition write_body ::
  "real list \<Rightarrow> string list \<Rightarrow> nat \<Rightarrow> nat \<Rightarrow> (string \<rightharpoonup> real list) \<Rightarrow>
   error + (string \<rightharpoonup> real list)" where
  "write_body src names i j d =
     (case py_nth src j of Inl e \<Rightarrow> Inl e | Inr x \<Rightarrow> dict_set_at d (names ! j) i x)"

text \<open>\<^verbatim>\<open>my_sol[-1, :]\<close>: the last row of the solution, IndexError if there is none.\<close>

definition last_row :: "real list list \<Rightarrow> error + real list" where
  "last_row sol = (if sol = [] then Inl IndexError else Inr (last sol))"

text \<open>
  The loop state of \<^verbatim>\<open>solve_ode_all_nodes\<close>: the manager, \<^verbatim>\<open>T_out\<close> and
  \<^verbatim>\<open>err_list\<close>. The body for the position \<open>act_ind\<close> in \<^verbatim>\<open>active_nodes\<close>:
\<close>

definition node_body ::
  "('p, 'm, 't, 'o, 'st) collaborators \<Rightarrow> 't \<Rightarrow> real list \<Rightarrow> 'o \<Rightarrow> bool \<Rightarrow> nat \<Rightarrow>
   'm reaction_manager \<times> real list \<times> 'st list \<Rightarrow>
   error + 'm reaction_manager \<times> real list \<times> 'st list" where
  "node_body ext t_arr T_in opts return_err act_ind s =
     (case s of (rm, T_out, err_list) \<Rightarrow>
     (case py_nth (active_nodes rm) act_ind of
        Inl e \<Rightarrow> Inl e
      | Inr i \<Rightarrow>
     (case py_nth (node_to_system_map rm) i of
        Inl e \<Rightarrow> Inl e
      | Inr sys_ind \<Rightarrow>
          if sys_ind < 0 then Inl (ConfigurationError (NoReactionSystem i))
          else
     (case efold (v_in_body (species_density rm) (species_name_list rm) i)
             [0..<length (species_name_list rm)] (replicate (n_species rm + 1) 0) of
        Inl e \<Rightarrow> Inl e
      | Inr v0 \<Rightarrow>
     (case py_nth T_in i of
        Inl e \<Rightarrow> Inl e
      | Inr T_i \<Rightarrow>
          let v_in = v0[n_species rm := T_i] in
     (case py_nth (reaction_systems rm) (nat sys_ind) of
        Inl e \<Rightarrow> Inl e
      | Inr rsys \<Rightarrow>
     (case solve_ode_node ext rsys t_arr v_in opts of
        Inl e \<Rightarrow> Inl e
      | Inr (my_sol, my_status) \<Rightarrow>
          let err_list' = (if return_err then err_list @ [my_status] else err_list) in
     (case last_row my_sol of
        Inl e \<Rightarrow> Inl e
      | Inr row \<Rightarrow>
     (case efold (write_body row (species_name_list rm) i)
             [0..<length (species_name_list rm)] (species_density rm) of
        Inl e \<Rightarrow> Inl e
      | Inr dens \<Rightarrow>
     (case get_rates ext rsys row of
        Inl e \<Rightarrow> Inl e
      | Inr rate_arr \<Rightarrow>
     (case efold (write_body rate_arr (species_name_list rm) i)
             [0..<length (species_name_list rm)] (species_rate rm) of
        Inl e \<Rightarrow> Inl e
      | Inr rate \<Rightarrow>
     (case np_get rate_arr (- 1) of
        Inl e \<Rightarrow> Inl e
      | Inr r_last \<Rightarrow>
     (case arr_set (temperature_rate rm) i r_last of
        Inl e \<Rightarrow> Inl e
      | Inr trate \<Rightarrow>
     (case arr_set (heat_release_rate rm) i (r_last * rho_cp rm) of
        Inl e \<Rightarrow> Inl e
      | Inr hrate \<Rightarrow>
     (case np_get row (- 1) of
        Inl e \<Rightarrow> Inl e
      | Inr T_new \<Rightarrow>
     (case arr_set T_out i T_new of
        Inl e \<Rightarrow> Inl e
      | Inr T_out' \<Rightarrow>
     (case check_complete ext rsys row of
        Inl e \<Rightarrow> Inl e
      | Inr is_complete \<Rightarrow>
          Inr (rm\<lparr>species_density := dens, species_rate := rate,
                  temperature_rate := trate, heat_release_rate := hrate,
                  inactive_node_list :=
                    (if is_complete then inactive_node_list rm @ [act_ind]
                     else inactive_node_list rm)\<rparr>,
               T_out', err_list'))))))))))))))))))"

definition solve_ode_all_nodes ::
  "('p, 'm, 't, 'o, 'st) collaborators \<Rightarrow> 'm reaction_manager \<Rightarrow> 't \<Rightarrow> real list \<Rightarrow> 'o \<Rightarrow> bool \<Rightarrow>
   error + 'm reaction_manager \<times> real list \<times> 'st list" where
  "solve_ode_all_nodes ext rm t_arr T_in opts return_err =
     (case (if length (inactive_node_list rm) > 0 then clear_nodes rm else Inr rm) of
        Inl e \<Rightarrow> Inl e
      | Inr rm1 \<Rightarrow>
          efold (node_body ext t_arr T_in opts return_err)
            [0..<length (active_nodes rm1)] (rm1, T_in, []))"

subsection \<open>Notions used to state the properties of the integrator\<close>

text \<open>
  The state slice of node \<open>i\<close>: its entry in every species density and species rate array,
  its temperature rate and its heat-release rate. \<open>pending_nodes\<close> are the nodes the
  pending-clear list \<^verbatim>\<open>inactive_node_list\<close> (a list of positions in \<^verbatim>\<open>active_nodes\<close>)
  refers to.
\<close>

definition node_val :: "(string \<rightharpoonup> real list) \<Rightarrow> nat \<Rightarrow> string \<Rightarrow> real option" where
  "node_val d i nm = map_option (\<lambda>a. a ! i) (d nm)"

definition node_state ::
  "'z reaction_manager1_scheme \<Rightarrow> nat \<Rightarrow>
   (string \<Rightarrow> real option) \<times> (string \<Rightarrow> real option) \<times> real \<times> real" where
  "node_state rm i =
     (node_val (species_density rm) i, node_val (species_rate rm) i,
      temperature_rate rm ! i, heat_release_rate rm ! i)"

definition pending_nodes :: "'z reaction_manager1_scheme \<Rightarrow> nat list" where
  "pending_nodes rm = map ((!) (active_nodes rm)) (inactive_node_list rm)"

text \<open>
  What \<^verbatim>\<open>clear_nodes\<close> is to do to a density: below the threshold it becomes zero.
  \<open>node_cleared rm rm' i\<close>: in \<open>rm'\<close> node \<open>i\<close> has, for every species of the list, the
  snapped density it had in \<open>rm\<close> and rate zero, and its temperature rate and heat-release
  rate are zero.
\<close>

definition snap :: "real \<Rightarrow> real \<Rightarrow> real" where
  "snap small x = (if x < small then 0 else x)"

definition node_cleared ::
  "'z reaction_manager1_scheme \<Rightarrow> 'y reaction_manager1_scheme \<Rightarrow> nat \<Rightarrow> bool" where
  "node_cleared rm rm' i \<longleftrightarrow>
     (\<forall>nm\<in>set (species_name_list rm).
        (\<exists>x. node_val (species_density rm) i nm = Some x
           \<and> node_val (species_density rm') i nm = Some (snap (small_number rm) x))
        \<and> node_val (species_rate rm') i nm = Some 0)
     \<and> temperature_rate rm' ! i = 0 \<and> heat_release_rate rm' ! i = 0"

text \<open>
  The entry of the reaction dictionary at position \<open>j\<close> of the sorted keys, as the factory
  receives it, and whether the configuration makes that reaction active on cell \<open>c\<close> (cells
  are numbered from 1): on every cell when \<^verbatim>\<open>Active Cells\<close> is absent.
\<close>

definition rxn_at :: "(int \<times> 'p rxn_info) list \<Rightarrow> nat \<Rightarrow> 'p rxn_info option" where
  "rxn_at rxn_dict j =
     map_option (\<lambda>info. if rxn_Type info = None then info\<lparr>rxn_Type := Some ''Basic''\<rparr> else info)
       (map_of rxn_dict (sort (map fst rxn_dict) ! j))"

definition flagged :: "(int \<times> 'p rxn_info) list \<Rightarrow> nat \<Rightarrow> int \<Rightarrow> bool" where
  "flagged rxn_dict j c \<longleftrightarrow>
     (case rxn_at rxn_dict j of
        None \<Rightarrow> False
      | Some info \<Rightarrow> (case Active_Cells info of None \<Rightarrow> True | Some cells \<Rightarrow> c \<in> set cells))"

text \<open>
  Reaction \<open>j\<close> (in sorted key order) has been loaded: the model and the matrix column at
  position \<open>j\<close> are what the factory returned for it, and row \<open>j\<close> of the activation mask
  has a one exactly on the cells the configuration makes it active on.
\<close>

definition rxn_done ::
  "('p, 'm, 't, 'o, 'st) collaborators \<Rightarrow> reaction_manager1 \<Rightarrow> (int \<times> 'p rxn_info) list \<Rightarrow>
   real list list \<Rightarrow> 'm list \<Rightarrow> int list list \<Rightarrow> nat \<Rightarrow> bool" where
  "rxn_done ext rm rxn_dict fc ms ar j \<longleftrightarrow>
     (\<exists>info col. rxn_at rxn_dict j = Some info
        \<and> rxn_model_factory ext info (rm_material_info rm) = Inr (ms ! j, col)
        \<and> assign_column (n_species rm) col = Inr (fc ! j))
     \<and> length (ar ! j) = nat (n_cells rm)
     \<and> (\<forall>c<nat (n_cells rm). ar ! j ! c = (if flagged rxn_dict j (int c + 1) then 1 else 0))"

text \<open>The managers that further successful calls of \<^verbatim>\<open>solve_ode_all_nodes\<close> lead to.\<close>

inductive later_call ::
  "('p, 'm, 't, 'o, 'st) collaborators \<Rightarrow> 'm reaction_manager \<Rightarrow> 'm reaction_manager \<Rightarrow> bool"
  for ext :: "('p, 'm, 't, 'o, 'st) collaborators" where
  later_refl: "later_call ext rm rm"
| later_step: "later_call ext rm rm1 \<Longrightarrow>
     solve_ode_all_nodes ext rm1 t_arr T_in opts return_err = Inr (rm2, T_out, errs) \<Longrightarrow>
     later_call ext rm rm2"

section \<open>Verified properties\<close>

subsection \<open>Boundary conditions\<close>

lemma np_index_nat: "0 \<le> i \<Longrightarrow> i < int n \<Longrightarrow> np_index n i = Inr (nat i)"
  by (simp add: np_index_def)

text \<open>
  \<^bold>\<open>C8\<close> (end\_flux, linear and explicit paths agree). Whenever the boundary node is a
  node of the right-hand side, \<^verbatim>\<open>apply\<close> and \<^verbatim>\<open>apply_operator\<close> both succeed with the
  same equation system: the flux is added to the RHS entry of the boundary node and
  nowhere else, and \<^verbatim>\<open>LHS_c\<close>, \<^verbatim>\<open>J_c\<close> and \<^verbatim>\<open>F\<close> are left as they were.
\<close>

theorem end_flux_paths_agree:
  assumes "0 \<le> n_ind b" and "n_ind b < int (length (RHS es))"
  shows "\<exists>es'. end_flux_apply b es mm = Inr es' \<and> end_flux_apply_operator b es mm T = Inr es'
           \<and> RHS es' = (RHS es)[nat (n_ind b) := RHS es ! nat (n_ind b) + flux b]
           \<and> RHS es' ! nat (n_ind b) - RHS es ! nat (n_ind b) = flux b
           \<and> LHS_c es' = LHS_c es \<and> J_c es' = J_c es \<and> F es' = F es"
  using assms
  by (simp add: end_flux_apply_def end_flux_apply_operator_def np_iadd_def np_index_nat)

theorem end_flux_paths_agree_witness:
  "end_flux_apply (end_flux_set_params \<lparr>name = ''end'', end_bc.dx_arr = [1, 1, 1], end_bc.n_tot = 3, n_ind = 2, k_ind = 1\<rparr> 5)
          \<lparr>LHS_c = [0, 0, 0], RHS = [1, 2, 3], J_c = [0, 0, 0], F = [0, 0, 0]\<rparr> ()
      = Inr \<lparr>LHS_c = [0, 0, 0], RHS = [1, 2, 8], J_c = [0, 0, 0], F = [0, 0, 0]\<rparr>
     \<and> end_flux_apply_operator (end_flux_set_params \<lparr>name = ''end'', end_bc.dx_arr = [1, 1, 1], end_bc.n_tot = 3, n_ind = 2, k_ind = 1\<rparr> 5)
          \<lparr>LHS_c = [0, 0, 0], RHS = [1, 2, 3], J_c = [0, 0, 0], F = [0, 0, 0]\<rparr> () [300, 300, 300]
      = Inr \<lparr>LHS_c = [0, 0, 0], RHS = [1, 2, 8], J_c = [0, 0, 0], F = [0, 0, 0]\<rparr>"
  using end_flux_paths_agree [of "end_flux_set_params \<lparr>name = ''end'', end_bc.dx_arr = [1, 1, 1], end_bc.n_tot = 3, n_ind = 2, k_ind = 1\<rparr> 5"
      "\<lparr>LHS_c = [0, 0, 0], RHS = [1, 2, 3], J_c = [0, 0, 0], F = [0, 0, 0]\<rparr>" "()" "[300, 300, 300]"]
  by (auto simp: end_flux_set_params_def end_bc.extend_def)

text \<open>
  \<^bold>\<open>C5\<close> (end\_radiation). For an object configured with emissivity \<open>eps\<close> and external
  temperature \<open>T_ext\<close> and any temperature field that covers the boundary node \<open>k\<close>:
  \<^verbatim>\<open>apply\<close> adds \<open>sigma * eps * (T\<^sup>4 - T_ext\<^sup>4)\<close> to \<open>F\<close> and \<open>4 * sigma * eps * T\<^sup>3\<close> to \<open>J_c\<close>
  at \<open>k\<close>, \<^verbatim>\<open>apply_operator\<close> adds the negation of the former to \<open>RHS\<close> at \<open>k\<close>, and both
  contributions vanish when the boundary temperature equals \<open>T_ext\<close>.
\<close>

theorem end_radiation_consistency:
  assumes "b = end_radiation_set_params b0 eps T_ext"
    and "0 \<le> n_ind b" and "k = nat (n_ind b)"
    and "k < length T" and "k < length (RHS es)" and "k < length (J_c es)" and "k < length (F es)"
  shows "\<exists>ea eo. end_radiation_apply b es mm T = Inr ea
           \<and> end_radiation_apply_operator b es mm T = Inr eo
           \<and> F ea ! k - F es ! k = (567 / 10 ^ 10) * eps * ((T ! k) ^ 4 - T_ext ^ 4)
           \<and> J_c ea ! k - J_c es ! k = 4 * ((567 / 10 ^ 10) * eps) * (T ! k) ^ 3
           \<and> RHS eo ! k - RHS es ! k = - (F ea ! k - F es ! k)
           \<and> (T ! k = T_ext \<longrightarrow> F ea ! k = F es ! k \<and> RHS eo ! k = RHS es ! k)"
  using assms
  by (simp add: end_radiation_apply_def end_radiation_apply_operator_def np_iadd_def np_isub_def
      np_get_def np_index_nat end_radiation_set_params_def end_bc.extend_def)

theorem end_radiation_consistency_witness:
  "\<exists>ea eo. end_radiation_apply
       (end_radiation_set_params \<lparr>name = ''end'', end_bc.dx_arr = [1, 1], end_bc.n_tot = 2, n_ind = 0, k_ind = 0\<rparr> 1 300)
       \<lparr>LHS_c = [0, 0], RHS = [7, 0], J_c = [0, 0], F = [3, 0]\<rparr> () [300, 400] = Inr ea
     \<and> end_radiation_apply_operator
       (end_radiation_set_params \<lparr>name = ''end'', end_bc.dx_arr = [1, 1], end_bc.n_tot = 2, n_ind = 0, k_ind = 0\<rparr> 1 300)
       \<lparr>LHS_c = [0, 0], RHS = [7, 0], J_c = [0, 0], F = [3, 0]\<rparr> () [300, 400] = Inr eo
     \<and> F ea ! 0 = 3 \<and> RHS eo ! 0 = 7"
  using end_radiation_consistency [of
      "end_radiation_set_params \<lparr>name = ''end'', end_bc.dx_arr = [1, 1], end_bc.n_tot = 2, n_ind = 0, k_ind = 0\<rparr> 1 300"
      "\<lparr>name = ''end'', end_bc.dx_arr = [1, 1], end_bc.n_tot = 2, n_ind = 0, k_ind = 0\<rparr>" 1 300 0
      "[300, 400]" "\<lparr>LHS_c = [0, 0], RHS = [7, 0], J_c = [0, 0], F = [3, 0]\<rparr>" "()"]
  by (auto simp: end_radiation_set_params_def end_bc.extend_def)

text \<open>
  \<^bold>\<open>C7\<close> (timed gate). Once the time is set, \<^verbatim>\<open>apply\<close> and \<^verbatim>\<open>apply_operator\<close> are the
  wrapped object's method exactly when \<open>off_time - tot_time > 1e-14\<close> and return the equation
  system untouched otherwise; with \<open>off_time = 10\<close> the wrapped method runs at
  \<open>tot_time = 9.999999999999\<close> and nothing happens at \<open>tot_time = 10\<close>.
\<close>

theorem timed_boundary_gate:
  "timed_boundary_apply f (set_time tb t) es args =
     (if off_time tb - t > 1 / 10 ^ 14 then f (bc tb) es args else Inr es)
   \<and> timed_boundary_apply_operator g (set_time tb t) es args' =
     (if off_time tb - t > 1 / 10 ^ 14 then g (bc tb) es args' else Inr es)
   \<and> timed_boundary_apply f (set_time (timed_boundary_init b 10) (9999999999999 / 10 ^ 12)) es args
       = f (b\<lparr>name := name b @ ''_timed''\<rparr>) es args
   \<and> timed_boundary_apply f (set_time (timed_boundary_init b 10) 10) es args = Inr es"
  by (simp add: timed_boundary_apply_def timed_boundary_apply_operator_def set_time_def
      timed_boundary_init_def)

theorem timed_boundary_gate_witness:
  "timed_boundary_apply end_flux_apply
     (set_time (timed_boundary_init
        (end_flux_set_params \<lparr>name = ''end'', end_bc.dx_arr = [1, 1], end_bc.n_tot = 2, n_ind = 0, k_ind = 0\<rparr> 5) 10)
        (9999999999999 / 10 ^ 12))
     \<lparr>LHS_c = [0, 0], RHS = [1, 2], J_c = [0, 0], F = [0, 0]\<rparr> ()
   = Inr \<lparr>LHS_c = [0, 0], RHS = [6, 2], J_c = [0, 0], F = [0, 0]\<rparr>
   \<and> timed_boundary_apply end_flux_apply
     (set_time (timed_boundary_init
        (end_flux_set_params \<lparr>name = ''end'', end_bc.dx_arr = [1, 1], end_bc.n_tot = 2, n_ind = 0, k_ind = 0\<rparr> 5) 10)
        10)
     \<lparr>LHS_c = [0, 0], RHS = [1, 2], J_c = [0, 0], F = [0, 0]\<rparr> ()
   = Inr \<lparr>LHS_c = [0, 0], RHS = [1, 2], J_c = [0, 0], F = [0, 0]\<rparr>"
  using timed_boundary_gate [of end_flux_apply
      "timed_boundary_init (end_flux_set_params \<lparr>name = ''end'', end_bc.dx_arr = [1, 1], end_bc.n_tot = 2, n_ind = 0, k_ind = 0\<rparr> 5) 10"
      "9999999999999 / 10 ^ 12" "\<lparr>LHS_c = [0, 0], RHS = [1, 2], J_c = [0, 0], F = [0, 0]\<rparr>" "()"
      "\<lambda>b es (mm, T). end_flux_apply_operator b es mm T" "((), [])"
      "end_flux_set_params \<lparr>name = ''end'', end_bc.dx_arr = [1, 1], end_bc.n_tot = 2, n_ind = 0, k_ind = 0\<rparr> 5"]
  by (simp add: end_flux_apply_def end_flux_set_params_def end_bc.extend_def np_iadd_def np_index_def timed_boundary_init_def)

subsection \<open>Grid builder\<close>

lemma efold_append:
  "efold f (xs @ ys) s = (case efold f xs s of Inl e \<Rightarrow> Inl e | Inr s' \<Rightarrow> efold f ys s')"
  by (induction xs arbitrary: s) (auto split: sum.splits)

lemma efold_snoc_Inr:
  "efold f (xs @ [x]) s = Inr s' \<longleftrightarrow> (\<exists>s1. efold f xs s = Inr s1 \<and> f x s1 = Inr s')"
  by (auto simp: efold_append split: sum.splits)

lemma np_round_floor_le: "\<lfloor>x\<rfloor> \<le> np_round x"
  by (simp add: np_round_def Let_def)

lemma np_round_le_floor: "np_round x \<le> \<lfloor>x\<rfloor> + 1"
  by (simp add: np_round_def Let_def)

lemma np_round_ge_1: "1 \<le> x \<Longrightarrow> 1 \<le> np_round x"
proof -
  assume "1 \<le> x"
  then have "1 \<le> \<lfloor>x\<rfloor>" by linarith
  then show ?thesis using np_round_floor_le [of x] by linarith
qed

lemma np_round_ge_2D:
  assumes "2 \<le> np_round x"
  shows "3 / 2 \<le> x"
proof (cases "2 \<le> \<lfloor>x\<rfloor>")
  case True
  then have "2 \<le> x" by linarith
  then show ?thesis by simp
next
  case False
  with assms np_round_le_floor [of x] have f: "\<lfloor>x\<rfloor> = 1" by linarith
  have "\<not> x - of_int \<lfloor>x\<rfloor> < 1 / 2"
  proof
    assume "x - of_int \<lfloor>x\<rfloor> < 1 / 2"
    then have "np_round x = \<lfloor>x\<rfloor>" by (simp add: np_round_def Let_def)
    with assms f show False by simp
  qed
  with f show ?thesis by simp
qed

lemma np_round_half_even:
  "x = of_int k + 1 / 2 \<Longrightarrow> np_round x = (if even k then k else k + 1)"
  by (simp add: np_round_def Let_def)


lemma layer_body_Inr:
  "layer_body tb i s = Inr s' \<longleftrightarrow>
     i < length (layer_thickness tb) \<and> i < length (layer_dx tb) \<and> i < length (layer_names tb)
     \<and> \<not> layer_thickness tb ! i < layer_dx tb ! i \<and> layer_dx tb ! i \<noteq> 0 \<and> nodes_of tb i \<noteq> 0
     \<and> s' = \<lparr>acc_n_tot = acc_n_tot s + nodes_of tb i,
             acc_mat_nodes = acc_mat_nodes s @ replicate (nat (nodes_of tb i)) (layer_names tb ! i),
             acc_nodes_per_layer = acc_nodes_per_layer s @ [nodes_of tb i],
             acc_mint_list = acc_mint_list s @ [acc_n_tot s + nodes_of tb i - 1],
             acc_first_node_list = acc_first_node_list s @ [acc_n_tot s],
             acc_dx_list = acc_dx_list s @ [layer_thickness tb ! i / of_int (nodes_of tb i)]\<rparr>"
  by (auto simp: layer_body_def py_nth_def nodes_of_def Let_def split: sum.splits if_splits)

lemma layer_loop_result:
  "efold (layer_body tb) is s = Inr s' \<Longrightarrow>
     (\<forall>i\<in>set is. i < length (layer_thickness tb) \<and> i < length (layer_dx tb)
        \<and> i < length (layer_names tb)
        \<and> \<not> layer_thickness tb ! i < layer_dx tb ! i \<and> layer_dx tb ! i \<noteq> 0 \<and> nodes_of tb i \<noteq> 0)
     \<and> acc_n_tot s' = acc_n_tot s + sum_list (map (nodes_of tb) is)
     \<and> acc_nodes_per_layer s' = acc_nodes_per_layer s @ map (nodes_of tb) is
     \<and> acc_dx_list s' = acc_dx_list s
          @ map (\<lambda>i. layer_thickness tb ! i / of_int (nodes_of tb i)) is
     \<and> acc_mat_nodes s' = acc_mat_nodes s
          @ concat (map (\<lambda>i. replicate (nat (nodes_of tb i)) (layer_names tb ! i)) is)
     \<and> acc_first_node_list s' = acc_first_node_list s
          @ map (\<lambda>k. acc_n_tot s + sum_list (map (nodes_of tb) (take k is))) [0..<length is]
     \<and> acc_mint_list s' = acc_mint_list s
          @ map (\<lambda>k. acc_n_tot s + sum_list (map (nodes_of tb) (take (Suc k) is)) - 1) [0..<length is]"
proof (induction "is" arbitrary: s' rule: rev_induct)
  case Nil
  then show ?case by simp
next
  case (snoc i "is")
  from snoc.prems obtain s1 where s1: "efold (layer_body tb) is s = Inr s1"
    and b: "layer_body tb i s1 = Inr s'"
    by (auto simp: efold_snoc_Inr)
  note IH = snoc.IH [OF s1]
  note B = b [unfolded layer_body_Inr]
  have t1: "map (\<lambda>k. acc_n_tot s + sum_list (map (nodes_of tb) (take k (is @ [i])))) [0..<length is]
      = map (\<lambda>k. acc_n_tot s + sum_list (map (nodes_of tb) (take k is))) [0..<length is]"
    by (rule map_cong) auto
  have t2: "map (\<lambda>k. acc_n_tot s + sum_list (map (nodes_of tb) (take (Suc k) (is @ [i]))) - 1) [0..<length is]
      = map (\<lambda>k. acc_n_tot s + sum_list (map (nodes_of tb) (take (Suc k) is)) - 1) [0..<length is]"
    by (rule map_cong) auto
  show ?case using IH B t1 t2 by simp
qed


lemma dx_body_Inr:
  "m < length dl \<Longrightarrow> m < length mint \<Longrightarrow>
   dx_body dl mint i (m, arr) = Inr (if int i = mint ! m then m + 1 else m, arr[i := dl ! m])"
  by (simp add: dx_body_def py_nth_def)

lemma dx_block:
  assumes "m < length dl" and "m < length mint"
  shows "0 < n \<Longrightarrow> mint ! m = int (a + n) - 1 \<Longrightarrow> a + n \<le> length arr \<Longrightarrow>
     efold (dx_body dl mint) [a..<a + n] (m, arr)
       = Inr (m + 1, take a arr @ replicate n (dl ! m) @ drop (a + n) arr)"
proof (induction n arbitrary: a arr)
  case 0
  then show ?case by simp
next
  case (Suc n)
  have up: "[a..<a + Suc n] = a # [Suc a..<Suc a + n]"
    by (simp add: upt_conv_Cons)
  show ?case
  proof (cases "n = 0")
    case True
    with Suc.prems show ?thesis
      by (simp add: dx_body_Inr [OF assms] upd_conv_take_nth_drop)
  next
    case False
    then have n: "0 < n" by simp
    from Suc.prems n have ne: "int a \<noteq> mint ! m" by simp
    have IH: "efold (dx_body dl mint) [Suc a..<Suc a + n] (m, arr[a := dl ! m])
       = Inr (m + 1, take (Suc a) (arr[a := dl ! m]) @ replicate n (dl ! m)
            @ drop (Suc a + n) (arr[a := dl ! m]))"
      using Suc.prems n by (intro Suc.IH) auto
    have tk: "take (Suc a) (arr[a := dl ! m]) = take a arr @ [dl ! m]"
      using Suc.prems by (simp add: take_Suc_conv_app_nth)
    have e1: "efold (dx_body dl mint) (a # [Suc a..<Suc a + n]) (m, arr)
        = efold (dx_body dl mint) [Suc a..<Suc a + n] (m, arr[a := dl ! m])"
      using ne by (simp only: efold.simps dx_body_Inr [OF assms] if_False sum.case)
    have e2: "take (Suc a) (arr[a := dl ! m]) @ replicate n (dl ! m)
            @ drop (Suc a + n) (arr[a := dl ! m])
        = take a arr @ replicate (Suc n) (dl ! m) @ drop (a + Suc n) arr"
      by (simp add: tk)
    show ?thesis
      by (simp only: up e1 IH e2)
  qed
qed

lemma dx_blocks:
  "length ds = length ns \<Longrightarrow> \<forall>n\<in>set ns. 0 < n \<Longrightarrow>
   m + length ns \<le> length dl \<Longrightarrow> m + length ns \<le> length mint \<Longrightarrow>
   (\<forall>j<length ns. dl ! (m + j) = ds ! j
                 \<and> mint ! (m + j) = int (a + sum_list (take (Suc j) ns)) - 1) \<Longrightarrow>
   a + sum_list ns \<le> length arr \<Longrightarrow>
   efold (dx_body dl mint) [a..<a + sum_list ns] (m, arr)
     = Inr (m + length ns,
            take a arr @ concat (map2 replicate ns ds) @ drop (a + sum_list ns) arr)"
proof (induction ns arbitrary: ds m a arr)
  case Nil
  then show ?case by simp
next
  case (Cons n ns)
  from Cons.prems obtain d ds' where ds: "ds = d # ds'" by (cases ds) auto
  from Cons.prems have n: "0 < n" by simp
  from Cons.prems(3,4) have m: "m < length dl" "m < length mint" by simp_all
  from Cons.prems(5) have h0: "dl ! m = d" "mint ! m = int (a + n) - 1"
    using ds by (auto dest: spec [of _ 0])
  have split: "[a..<a + sum_list (n # ns)] = [a..<a + n] @ [a + n..<(a + n) + sum_list ns]"
    using upt_add_eq_append [of a "a + n" "sum_list ns"] by (simp add: add.assoc)
  have blk: "efold (dx_body dl mint) [a..<a + n] (m, arr)
       = Inr (m + 1, take a arr @ replicate n d @ drop (a + n) arr)"
    using dx_block [OF m n h0(2)] Cons.prems(6) h0(1) by simp
  let ?arr = "take a arr @ replicate n d @ drop (a + n) arr"
  have len: "length ?arr = length arr" using Cons.prems(6) by simp
  have IH: "efold (dx_body dl mint) [a + n..<(a + n) + sum_list ns] (m + 1, ?arr)
       = Inr (m + 1 + length ns,
              take (a + n) ?arr @ concat (map2 replicate ns ds') @ drop ((a + n) + sum_list ns) ?arr)"
  proof (rule Cons.IH)
    show "length ds' = length ns" using Cons.prems(1) ds by simp
    show "\<forall>n\<in>set ns. 0 < n" using Cons.prems(2) by simp
    show "m + 1 + length ns \<le> length dl" using Cons.prems(3) by simp
    show "m + 1 + length ns \<le> length mint" using Cons.prems(4) by simp
    show "\<forall>j<length ns. dl ! (m + 1 + j) = ds' ! j
             \<and> mint ! (m + 1 + j) = int (a + n + sum_list (take (Suc j) ns)) - 1"
    proof (intro allI impI)
      fix j assume "j < length ns"
      then have "Suc j < length (n # ns)" by simp
      with Cons.prems(5) have "dl ! (m + Suc j) = ds ! Suc j
           \<and> mint ! (m + Suc j) = int (a + sum_list (take (Suc (Suc j)) (n # ns))) - 1"
        by blast
      then show "dl ! (m + 1 + j) = ds' ! j
             \<and> mint ! (m + 1 + j) = int (a + n + sum_list (take (Suc j) ns)) - 1"
        using ds by (simp add: add.assoc)
    qed
    show "a + n + sum_list ns \<le> length ?arr" using Cons.prems(6) by simp
  qed
  have tk: "take (a + n) ?arr = take a arr @ replicate n d"
    using Cons.prems(6) by simp
  have dr: "drop ((a + n) + sum_list ns) ?arr = drop (a + sum_list (n # ns)) arr"
    using Cons.prems(6) by (simp add: add.assoc add.commute add.left_commute)
  have "efold (dx_body dl mint) [a..<a + sum_list (n # ns)] (m, arr)
      = efold (dx_body dl mint) [a + n..<(a + n) + sum_list ns] (m + 1, ?arr)"
    by (simp only: split efold_append blk sum.case)
  also note IH
  also have "Inr (m + 1 + length ns,
      take (a + n) ?arr @ concat (map2 replicate ns ds') @ drop ((a + n) + sum_list ns) ?arr)
    = (Inr (m + length (n # ns),
        take a arr @ concat (map2 replicate (n # ns) ds) @ drop (a + sum_list (n # ns)) arr)
       :: error + nat \<times> real list)"
    by (simp only: tk dr) (simp add: ds)
  finally show ?case .
qed


lemma layer_loop_succeeds:
  "(\<forall>i\<in>set is. i < length (layer_thickness tb) \<and> i < length (layer_dx tb)
        \<and> i < length (layer_names tb)
        \<and> \<not> layer_thickness tb ! i < layer_dx tb ! i \<and> layer_dx tb ! i \<noteq> 0 \<and> nodes_of tb i \<noteq> 0)
   \<Longrightarrow> \<exists>s'. efold (layer_body tb) is s = Inr s'"
proof (induction "is" arbitrary: s)
  case Nil
  then show ?case by simp
next
  case (Cons i "is")
  then obtain s1 where "layer_body tb i s = Inr s1"
    by (auto simp: layer_body_Inr)
  with Cons show ?case by simp
qed

lemma int_sum_list_nat:
  "\<forall>x\<in>set xs. 0 \<le> f x \<Longrightarrow> int (sum_list (map (\<lambda>x. nat (f x)) xs)) = sum_list (map f xs)"
  by (induction xs) auto



lemma dx_loop_result:
  assumes pos: "\<forall>i<nl. 1 \<le> nf i"
  shows "efold (dx_body (map df [0..<nl])
             (map (\<lambda>k. sum_list (map nf (take (Suc k) [0..<nl])) - 1) [0..<nl]))
           [0..<nat (sum_list (map nf [0..<nl]))]
           (0, replicate (nat (sum_list (map nf [0..<nl]))) 0)
         = Inr (nl, concat (map (\<lambda>i. replicate (nat (nf i)) (df i)) [0..<nl]))"
proof -
  let ?ns = "map (\<lambda>i. nat (nf i)) [0..<nl]"
  let ?ds = "map df [0..<nl]"
  let ?mint = "map (\<lambda>k. sum_list (map nf (take (Suc k) [0..<nl])) - 1) [0..<nl]"
  have nn: "\<forall>i\<in>set [0..<nl]. 0 \<le> nf i" using pos by force
  have N: "nat (sum_list (map nf [0..<nl])) = sum_list ?ns"
    using int_sum_list_nat [OF nn] by linarith
  have cond: "\<forall>j<length ?ns. ?ds ! (0 + j) = ?ds ! j
        \<and> ?mint ! (0 + j) = int (0 + sum_list (take (Suc j) ?ns)) - 1"
  proof (intro allI impI)
    fix j assume j: "j < length ?ns"
    have "\<forall>x\<in>set (take (Suc j) [0..<nl]). 0 \<le> nf x"
      using nn by (meson in_set_takeD)
    from int_sum_list_nat [OF this]
    have "int (sum_list (take (Suc j) ?ns)) = sum_list (map nf (take (Suc j) [0..<nl]))"
      by (simp add: take_map)
    with j show "?ds ! (0 + j) = ?ds ! j
        \<and> ?mint ! (0 + j) = int (0 + sum_list (take (Suc j) ?ns)) - 1"
      by simp
  qed
  have "efold (dx_body ?ds ?mint) [0..<0 + sum_list ?ns] (0, replicate (sum_list ?ns) 0)
      = Inr (0 + length ?ns,
          take 0 (replicate (sum_list ?ns) 0) @ concat (map2 replicate ?ns ?ds)
            @ drop (0 + sum_list ?ns) (replicate (sum_list ?ns) 0))"
  proof (rule dx_blocks)
    show "length ?ds = length ?ns" by simp
    show "\<forall>n\<in>set ?ns. 0 < n" using pos by force
    show "0 + length ?ns \<le> length ?ds" by simp
    show "0 + length ?ns \<le> length ?mint" by simp
    show "\<forall>j<length ?ns. ?ds ! (0 + j) = ?ds ! j
        \<and> ?mint ! (0 + j) = int (0 + sum_list (take (Suc j) ?ns)) - 1"
      by (rule cond)
    show "0 + sum_list ?ns \<le> length (replicate (sum_list ?ns) (0::real))" by simp
  qed
  moreover have "map2 replicate ?ns ?ds = map (\<lambda>i. replicate (nat (nf i)) (df i)) [0..<nl]"
    by (simp add: zip_map_map zip_same_conv_map)
  ultimately show ?thesis
    by (simp add: N)
qed



lemma setup_grid_unfold:
  assumes "setup_grid tb = Inr g"
  shows "\<exists>s m dxs mint0.
      efold (layer_body tb) [0..<length (layer_names tb)] layer_acc0 = Inr s
      \<and> (1 < length (layer_names tb) \<longrightarrow>
            (\<forall>i<length (layer_names tb). \<not> acc_nodes_per_layer s ! i \<le> 1))
      \<and> 0 \<le> acc_n_tot s
      \<and> efold (dx_body (acc_dx_list s) (acc_mint_list s)) [0..<nat (acc_n_tot s)]
            (0, replicate (nat (acc_n_tot s)) 0) = Inr (m, dxs)
      \<and> py_nth (acc_mint_list s) 0 = Inr mint0
      \<and> grid_manager.n_tot g = acc_n_tot s \<and> mint_list g = acc_mint_list s
      \<and> grid_manager.first_node_list g = acc_first_node_list s \<and> grid_manager.mat_nodes g = acc_mat_nodes s
      \<and> dx_arr g = dxs \<and> n_layers g = length (layer_names tb)
      \<and> x_node g = map (\<lambda>i. 1 / 2 * dxs ! i + sum_list (take i dxs)) [0..<nat (acc_n_tot s)]
      \<and> layer_names g = layer_names tb \<and> layer_dx g = layer_dx tb
      \<and> layer_thickness g = layer_thickness tb"
  using assms unfolding setup_grid_def Let_def
  by (auto split: sum.splits if_splits prod.splits simp: filter_empty_conv layer_table.extend_def
        layer_table.defs)


lemma take_Suc_upt: "k < n \<Longrightarrow> take (Suc k) [0..<n] = [0..<Suc k]"
  by (simp add: take_upt)

lemma setup_grid_result:
  assumes ok: "setup_grid tb = Inr g"
  shows "0 < length (layer_names tb)
    \<and> (\<forall>i<length (layer_names tb).
          i < length (layer_thickness tb) \<and> i < length (layer_dx tb)
          \<and> \<not> layer_thickness tb ! i < layer_dx tb ! i \<and> layer_dx tb ! i \<noteq> 0
          \<and> 1 \<le> nodes_of tb i \<and> (1 < length (layer_names tb) \<longrightarrow> 2 \<le> nodes_of tb i))
    \<and> grid_manager.n_tot g = sum_list (map (nodes_of tb) [0..<length (layer_names tb)])
    \<and> dx_arr g = concat (map (\<lambda>i. replicate (nat (nodes_of tb i))
                       (layer_thickness tb ! i / of_int (nodes_of tb i))) [0..<length (layer_names tb)])
    \<and> grid_manager.mat_nodes g = concat (map (\<lambda>i. replicate (nat (nodes_of tb i)) (layer_names tb ! i))
                       [0..<length (layer_names tb)])
    \<and> grid_manager.first_node_list g = map (\<lambda>k. sum_list (map (nodes_of tb) [0..<k])) [0..<length (layer_names tb)]
    \<and> mint_list g = map (\<lambda>k. sum_list (map (nodes_of tb) [0..<Suc k]) - 1)
                       [0..<length (layer_names tb)]
    \<and> x_node g = map (\<lambda>i. 1 / 2 * dx_arr g ! i + sum_list (take i (dx_arr g)))
                       [0..<nat (grid_manager.n_tot g)]"
proof -
  let ?nl = "length (layer_names tb)"
  let ?nf = "nodes_of tb"
  let ?df = "\<lambda>i. layer_thickness tb ! i / of_int (nodes_of tb i)"
  from setup_grid_unfold [OF ok] obtain s m dxs mint0 where
    loop: "efold (layer_body tb) [0..<?nl] layer_acc0 = Inr s"
    and multi: "1 < ?nl \<longrightarrow> (\<forall>i<?nl. \<not> acc_nodes_per_layer s ! i \<le> 1)"
    and nn: "0 \<le> acc_n_tot s"
    and fill: "efold (dx_body (acc_dx_list s) (acc_mint_list s)) [0..<nat (acc_n_tot s)]
            (0, replicate (nat (acc_n_tot s)) 0) = Inr (m, dxs)"
    and m0: "py_nth (acc_mint_list s) 0 = Inr mint0"
    and g: "grid_manager.n_tot g = acc_n_tot s" "mint_list g = acc_mint_list s"
      "grid_manager.first_node_list g = acc_first_node_list s" "grid_manager.mat_nodes g = acc_mat_nodes s"
      "dx_arr g = dxs"
      "x_node g = map (\<lambda>i. 1 / 2 * dxs ! i + sum_list (take i dxs)) [0..<nat (acc_n_tot s)]"
    by blast
  note R = layer_loop_result [OF loop]
  have ntot: "acc_n_tot s = sum_list (map ?nf [0..<?nl])"
    and npl: "acc_nodes_per_layer s = map ?nf [0..<?nl]"
    and dxl: "acc_dx_list s = map ?df [0..<?nl]"
    and mats: "acc_mat_nodes s = concat (map (\<lambda>i. replicate (nat (?nf i)) (layer_names tb ! i)) [0..<?nl])"
    and firsts: "acc_first_node_list s = map (\<lambda>k. sum_list (map ?nf (take k [0..<?nl]))) [0..<?nl]"
    and mints: "acc_mint_list s = map (\<lambda>k. sum_list (map ?nf (take (Suc k) [0..<?nl])) - 1) [0..<?nl]"
    using R by (simp_all add: layer_acc0_def)
  have rng: "\<forall>i<?nl. i < length (layer_thickness tb) \<and> i < length (layer_dx tb)
          \<and> \<not> layer_thickness tb ! i < layer_dx tb ! i \<and> layer_dx tb ! i \<noteq> 0 \<and> ?nf i \<noteq> 0"
    using R by simp
  have nl: "0 < ?nl"
    using m0 mints by (cases "?nl = 0") (auto simp: py_nth_def)
  have two: "1 < ?nl \<longrightarrow> (\<forall>i<?nl. 2 \<le> ?nf i)"
    using multi npl by auto
  have one: "\<forall>i<?nl. 1 \<le> ?nf i"
  proof (cases "1 < ?nl")
    case True
    with two show ?thesis by force
  next
    case False
    with nl have "?nl = 1" by linarith
    with nn ntot rng show ?thesis by auto
  qed
  have fill': "efold (dx_body (acc_dx_list s) (acc_mint_list s)) [0..<nat (acc_n_tot s)]
            (0, replicate (nat (acc_n_tot s)) 0)
       = Inr (?nl, concat (map (\<lambda>i. replicate (nat (?nf i)) (?df i)) [0..<?nl]))"
    unfolding dxl mints ntot by (rule dx_loop_result [OF one])
  with fill have dxs: "dxs = concat (map (\<lambda>i. replicate (nat (?nf i)) (?df i)) [0..<?nl])"
    by auto
  have f': "map (\<lambda>k. sum_list (map ?nf (take k [0..<?nl]))) [0..<?nl]
      = map (\<lambda>k. sum_list (map ?nf [0..<k])) [0..<?nl]"
    by (rule map_cong) (auto simp: take_upt)
  have m': "map (\<lambda>k. sum_list (map ?nf (take (Suc k) [0..<?nl])) - 1) [0..<?nl]
      = map (\<lambda>k. sum_list (map ?nf [0..<Suc k]) - 1) [0..<?nl]"
    by (rule map_cong) (auto simp: take_upt simp del: upt_Suc)
  show ?thesis
    using nl rng one two g ntot mats dxs firsts mints f' m' by (simp del: upt_Suc)
qed


lemma setup_grid_succeeds:
  assumes nl: "0 < length (layer_names tb)"
    and rng: "\<forall>i<length (layer_names tb).
          i < length (layer_thickness tb) \<and> i < length (layer_dx tb)
          \<and> \<not> layer_thickness tb ! i < layer_dx tb ! i \<and> layer_dx tb ! i \<noteq> 0
          \<and> 1 \<le> nodes_of tb i \<and> (1 < length (layer_names tb) \<longrightarrow> 2 \<le> nodes_of tb i)"
  shows "\<exists>g. setup_grid tb = Inr g"
proof -
  let ?nl = "length (layer_names tb)"
  let ?nf = "nodes_of tb"
  let ?df = "\<lambda>i. layer_thickness tb ! i / of_int (nodes_of tb i)"
  have "\<forall>i\<in>set [0..<?nl]. i < length (layer_thickness tb) \<and> i < length (layer_dx tb)
        \<and> i < length (layer_names tb)
        \<and> \<not> layer_thickness tb ! i < layer_dx tb ! i \<and> layer_dx tb ! i \<noteq> 0 \<and> ?nf i \<noteq> 0"
    using rng by force
  from layer_loop_succeeds [OF this] obtain s where
    loop: "efold (layer_body tb) [0..<?nl] layer_acc0 = Inr s" by blast
  note R = layer_loop_result [OF loop]
  have ntot: "acc_n_tot s = sum_list (map ?nf [0..<?nl])"
    and npl: "acc_nodes_per_layer s = map ?nf [0..<?nl]"
    and dxl: "acc_dx_list s = map ?df [0..<?nl]"
    and mints: "acc_mint_list s = map (\<lambda>k. sum_list (map ?nf (take (Suc k) [0..<?nl])) - 1) [0..<?nl]"
    using R by (simp_all add: layer_acc0_def)
  have one: "\<forall>i<?nl. 1 \<le> ?nf i" using rng by blast
  have fill: "efold (dx_body (acc_dx_list s) (acc_mint_list s)) [0..<nat (acc_n_tot s)]
            (0, replicate (nat (acc_n_tot s)) 0)
       = Inr (?nl, concat (map (\<lambda>i. replicate (nat (?nf i)) (?df i)) [0..<?nl]))"
    unfolding dxl mints ntot by (rule dx_loop_result [OF one])
  have nn: "\<not> acc_n_tot s < 0"
  proof -
    have "0 \<le> sum_list (map ?nf [0..<?nl])"
      by (rule sum_list_nonneg) (use one in force)
    then show ?thesis unfolding ntot by simp
  qed
  have flt: "filter (\<lambda>i. acc_nodes_per_layer s ! i \<le> 1) [0..<?nl] = []" if "1 < ?nl"
    using that rng by (force simp: filter_empty_conv npl)
  have m0: "py_nth (acc_mint_list s) 0
      = Inr (sum_list (map ?nf (take (Suc 0) [0..<?nl])) - 1)"
    using nl by (simp add: py_nth_def mints del: upt_Suc take_Suc)
  show ?thesis
    unfolding setup_grid_def Let_def
    using flt by (simp add: loop nn fill m0 del: upt_Suc take_Suc)
qed

lemma concat_replicate_length:
  "length (concat (map (\<lambda>i. replicate (n i) (v i)) [0..<nl])) = sum_list (map n [0..<nl])"
  by (induction nl) auto

lemma concat_replicate_nth:
  "i < nl \<Longrightarrow> sum_list (map n [0..<i]) \<le> j \<Longrightarrow> j < sum_list (map n [0..<Suc i]) \<Longrightarrow>
   concat (map (\<lambda>i. replicate (n i) (v i)) [0..<nl]) ! j = v i"
proof (induction nl)
  case 0
  then show ?case by simp
next
  case (Suc nl)
  let ?pre = "concat (map (\<lambda>i. replicate (n i) (v i)) [0..<nl])"
  have len: "length ?pre = sum_list (map n [0..<nl])" by (rule concat_replicate_length)
  show ?case
  proof (cases "i = nl")
    case True
    with Suc.prems len show ?thesis by (simp add: nth_append)
  next
    case False
    with Suc.prems have i: "i < nl" by simp
    have "sum_list (map n [0..<Suc i]) \<le> sum_list (map n [0..<nl])"
    proof -
      have "[0..<Suc i + (nl - Suc i)] = [0..<Suc i] @ [Suc i..<Suc i + (nl - Suc i)]"
        by (rule upt_add_eq_append) simp
      then have "[0..<nl] = [0..<Suc i] @ [Suc i..<nl]"
        using i by simp
      then have "sum_list (map n [0..<nl]) = sum_list (map n [0..<Suc i]) + sum_list (map n [Suc i..<nl])"
        by (metis map_append sum_list.append)
      then show ?thesis by linarith
    qed
    with Suc.prems have "j < length ?pre" using len by linarith
    with Suc.IH [OF i Suc.prems(2,3)] show ?thesis by (simp add: nth_append)
  qed
qed

lemma sum_list_concat_replicate:
  "sum_list (concat (map (\<lambda>i. replicate (n i) (v i :: real)) xs)) = (\<Sum>i\<leftarrow>xs. of_nat (n i) * v i)"
  by (induction xs) (auto simp: sum_list_replicate)

lemma prefix_sum_mono:
  fixes xs :: "real list"
  shows "\<forall>x\<in>set xs. 0 < x \<Longrightarrow> j < k \<Longrightarrow> k \<le> length xs \<Longrightarrow>
     sum_list (take j xs) + xs ! j \<le> sum_list (take k xs)"
proof (induction k)
  case 0
  then show ?case by simp
next
  case (Suc k)
  then have k: "k < length xs" by simp
  have step: "sum_list (take (Suc k) xs) = sum_list (take k xs) + xs ! k"
    using k by (simp add: take_Suc_conv_app_nth)
  show ?case
  proof (cases "j = k")
    case True
    with step show ?thesis by simp
  next
    case False
    with Suc.prems have "j < k" by simp
    from Suc.IH [OF Suc.prems(1) this] k have "sum_list (take j xs) + xs ! j \<le> sum_list (take k xs)"
      by simp
    moreover have "0 < xs ! k" using Suc.prems(1) k by simp
    ultimately show ?thesis using step by linarith
  qed
qed

lemma thickness_pos:
  fixes T d :: real
  assumes "\<not> T < d" and "d \<noteq> 0" and "2 \<le> np_round (T / d)"
  shows "0 < T"
proof -
  have r: "3 / 2 \<le> T / d" using assms(3) by (rule np_round_ge_2D)
  show ?thesis
  proof (cases "0 < d")
    case True
    with assms(1) show ?thesis by linarith
  next
    case False
    with assms(2) have d: "d < 0" by simp
    from r d have "T \<le> 3 / 2 * d" by (simp add: field_simps)
    with d assms(1) show ?thesis by linarith
  qed
qed


text \<open>
  \<^bold>\<open>C3\<close> (grid geometry), for every layer table on which \<^verbatim>\<open>setup_grid\<close> returns a grid.
  Every layer has its thickness at least its requested spacing and resolves to
  \<open>n = round(T / d) \<ge> 1\<close> nodes, the nodes from its first node to its interface node; each
  of these nodes has spacing \<open>T / n\<close>, so \<open>n\<close> times the spacing is \<open>T\<close>. The position of
  a node is half its spacing plus the sum of the spacings to its left, the positions are
  strictly increasing, and the right edge of the last node is the sum of the layer
  thicknesses.
\<close>

theorem setup_grid_geometry:
  assumes ok: "setup_grid tb = Inr g"
  shows "(\<forall>i<length (layer_names tb).
            layer_dx tb ! i \<le> layer_thickness tb ! i \<and> 1 \<le> nodes_of tb i
          \<and> mint_list g ! i - grid_manager.first_node_list g ! i + 1 = nodes_of tb i
          \<and> (\<forall>j. grid_manager.first_node_list g ! i \<le> int j \<and> int j \<le> mint_list g ! i \<longrightarrow>
                 dx_arr g ! j = layer_thickness tb ! i / of_int (nodes_of tb i)
               \<and> of_int (nodes_of tb i) * dx_arr g ! j = layer_thickness tb ! i))
      \<and> grid_manager.n_tot g = sum_list (map (nodes_of tb) [0..<length (layer_names tb)])
      \<and> 1 \<le> grid_manager.n_tot g
      \<and> length (dx_arr g) = nat (grid_manager.n_tot g) \<and> length (x_node g) = nat (grid_manager.n_tot g)
      \<and> (\<forall>j<nat (grid_manager.n_tot g). x_node g ! j = 1 / 2 * dx_arr g ! j + sum_list (take j (dx_arr g)))
      \<and> (\<forall>j k. j < k \<and> k < nat (grid_manager.n_tot g) \<longrightarrow> x_node g ! j < x_node g ! k)
      \<and> x_node g ! (nat (grid_manager.n_tot g) - 1) + dx_arr g ! (nat (grid_manager.n_tot g) - 1) / 2
          = sum_list (map (\<lambda>i. layer_thickness tb ! i) [0..<length (layer_names tb)])"
proof -
  let ?nl = "length (layer_names tb)"
  let ?nf = "nodes_of tb"
  let ?n = "\<lambda>i. nat (nodes_of tb i)"
  let ?df = "\<lambda>i. layer_thickness tb ! i / of_int (nodes_of tb i)"
  note R = setup_grid_result [OF ok]
  have nl: "0 < ?nl" using R by blast
  have rng: "\<forall>i<?nl. \<not> layer_thickness tb ! i < layer_dx tb ! i \<and> layer_dx tb ! i \<noteq> 0
      \<and> 1 \<le> ?nf i \<and> (1 < ?nl \<longrightarrow> 2 \<le> ?nf i)"
    using R by blast
  have ntot: "grid_manager.n_tot g = sum_list (map ?nf [0..<?nl])" using R by blast
  have dxs: "dx_arr g = concat (map (\<lambda>i. replicate (?n i) (?df i)) [0..<?nl])" using R by blast
  have firsts: "grid_manager.first_node_list g = map (\<lambda>k. sum_list (map ?nf [0..<k])) [0..<?nl]"
    using R by blast
  have mints: "mint_list g = map (\<lambda>k. sum_list (map ?nf [0..<Suc k]) - 1) [0..<?nl]"
    using R by blast
  have xs: "x_node g = map (\<lambda>i. 1 / 2 * dx_arr g ! i + sum_list (take i (dx_arr g)))
                       [0..<nat (grid_manager.n_tot g)]"
    using R by blast
  have ge0: "0 \<le> ?nf i" if "i < ?nl" for i
  proof -
    from rng that have "1 \<le> ?nf i" by blast
    then show ?thesis by linarith
  qed
  have nn: "\<And>k. k \<le> ?nl \<Longrightarrow> int (sum_list (map ?n [0..<k])) = sum_list (map ?nf [0..<k])"
  proof -
    fix k assume "k \<le> ?nl"
    then have "\<forall>x\<in>set [0..<k]. 0 \<le> ?nf x" using ge0 by simp
    then show "int (sum_list (map ?n [0..<k])) = sum_list (map ?nf [0..<k])"
      by (rule int_sum_list_nat)
  qed
  have len: "length (dx_arr g) = nat (grid_manager.n_tot g)"
    unfolding dxs ntot concat_replicate_length using nn [of ?nl] by linarith
  have N1: "1 \<le> grid_manager.n_tot g"
  proof -
    have "[0..<?nl] = 0 # [Suc 0..<?nl]" using nl by (simp add: upt_conv_Cons)
    then have "sum_list (map ?nf [0..<?nl]) = ?nf 0 + sum_list (map ?nf [Suc 0..<?nl])"
      by (metis list.simps(9) sum_list.Cons)
    moreover have "0 \<le> sum_list (map ?nf [Suc 0..<?nl])"
      by (rule sum_list_nonneg) (use ge0 in auto)
    moreover have "1 \<le> ?nf 0" using rng nl by blast
    ultimately show ?thesis unfolding ntot by linarith
  qed
  have layer: "layer_dx tb ! i \<le> layer_thickness tb ! i \<and> 1 \<le> ?nf i
          \<and> mint_list g ! i - grid_manager.first_node_list g ! i + 1 = ?nf i
          \<and> (\<forall>j. grid_manager.first_node_list g ! i \<le> int j \<and> int j \<le> mint_list g ! i \<longrightarrow>
                 dx_arr g ! j = ?df i \<and> of_int (?nf i) * dx_arr g ! j = layer_thickness tb ! i)"
    if i: "i < ?nl" for i
  proof -
    have f: "grid_manager.first_node_list g ! i = sum_list (map ?nf [0..<i])"
      using i by (simp add: firsts)
    have m: "mint_list g ! i = sum_list (map ?nf [0..<Suc i]) - 1"
      using i by (simp add: mints del: upt_Suc)
    have one: "1 \<le> ?nf i" using rng i by blast
    have nodes: "dx_arr g ! j = ?df i \<and> of_int (?nf i) * dx_arr g ! j = layer_thickness tb ! i"
      if j: "grid_manager.first_node_list g ! i \<le> int j \<and> int j \<le> mint_list g ! i" for j
    proof -
      have lo: "sum_list (map ?n [0..<i]) \<le> j"
        using j f nn [of i] i by linarith
      have hi: "j < sum_list (map ?n [0..<Suc i])"
        using j m nn [of "Suc i"] i by linarith
      have "dx_arr g ! j = ?df i"
        unfolding dxs by (rule concat_replicate_nth [OF i lo hi])
      then show ?thesis using one by simp
    qed
    show ?thesis using rng i f m nodes by (simp add: not_less)
  qed
  have xn: "x_node g ! j = 1 / 2 * dx_arr g ! j + sum_list (take j (dx_arr g))"
    if "j < nat (grid_manager.n_tot g)" for j
    using that by (simp add: xs)
  have total: "sum_list (dx_arr g) = sum_list (map (\<lambda>i. layer_thickness tb ! i) [0..<?nl])"
  proof -
    have "sum_list (dx_arr g) = (\<Sum>i\<leftarrow>[0..<?nl]. of_nat (?n i) * ?df i)"
      unfolding dxs by (rule sum_list_concat_replicate)
    also have "\<dots> = (\<Sum>i\<leftarrow>[0..<?nl]. layer_thickness tb ! i)"
    proof (rule arg_cong [where f = sum_list], rule map_cong [OF refl])
      fix i assume "i \<in> set [0..<?nl]"
      then have "1 \<le> ?nf i" using rng by simp
      then show "of_nat (?n i) * ?df i = layer_thickness tb ! i" by simp
    qed
    finally show ?thesis .
  qed
  have edge: "x_node g ! (nat (grid_manager.n_tot g) - 1) + dx_arr g ! (nat (grid_manager.n_tot g) - 1) / 2
      = sum_list (map (\<lambda>i. layer_thickness tb ! i) [0..<?nl])"
  proof -
    obtain M where M: "nat (grid_manager.n_tot g) = Suc M"
      using N1 by (cases "nat (grid_manager.n_tot g)") auto
    have lM: "M < length (dx_arr g)" using len M by simp
    have "take (Suc M) (dx_arr g) = take M (dx_arr g) @ [dx_arr g ! M]"
      by (rule take_Suc_conv_app_nth [OF lM])
    moreover have "take (Suc M) (dx_arr g) = dx_arr g" using len M by simp
    ultimately have "dx_arr g = take M (dx_arr g) @ [dx_arr g ! M]" by simp
    then have "sum_list (dx_arr g) = sum_list (take M (dx_arr g) @ [dx_arr g ! M])" by simp
    then have "sum_list (dx_arr g) = sum_list (take M (dx_arr g)) + dx_arr g ! M" by simp
    moreover have "x_node g ! M = 1 / 2 * dx_arr g ! M + sum_list (take M (dx_arr g))"
      by (rule xn) (simp add: M)
    ultimately show ?thesis using total by (simp add: M)
  qed
  have mono: "x_node g ! j < x_node g ! k" if jk: "j < k \<and> k < nat (grid_manager.n_tot g)" for j k
  proof -
    have two: "2 \<le> grid_manager.n_tot g" using jk by linarith
    have all2: "\<forall>i<?nl. 2 \<le> ?nf i"
    proof (cases "1 < ?nl")
      case True
      with rng show ?thesis by blast
    next
      case False
      with nl have "?nl = 1" by linarith
      with two ntot show ?thesis by auto
    qed
    have pos: "\<forall>x\<in>set (dx_arr g). 0 < x"
    proof
      fix x assume "x \<in> set (dx_arr g)"
      then obtain i where i: "i < ?nl" and x: "x = ?df i"
        unfolding dxs by auto
      have "0 < layer_thickness tb ! i"
        using rng all2 i thickness_pos [of "layer_thickness tb ! i" "layer_dx tb ! i"]
        by (simp add: nodes_of_def)
      moreover have "0 < ?nf i" using all2 i by force
      ultimately show "0 < x" unfolding x by simp
    qed
    have "sum_list (take j (dx_arr g)) + dx_arr g ! j \<le> sum_list (take k (dx_arr g))"
      by (rule prefix_sum_mono [OF pos]) (use jk len in auto)
    moreover have "0 < dx_arr g ! j" "0 < dx_arr g ! k"
      using pos jk len by auto
    ultimately show ?thesis
      using xn [of j] xn [of k] jk by simp
  qed
  have lx: "length (x_node g) = nat (grid_manager.n_tot g)"
    by (subst xs) simp
  show ?thesis
    using layer ntot N1 len lx xn mono edge by blast
qed

lemmas grid_eval = setup_grid_def layer_body_def py_nth_def np_round_def dx_body_def Let_def
  upt_rec layer_table.extend_def nodes_of_def layer_acc0_def

theorem setup_grid_geometry_witness:
  "\<exists>g. setup_grid \<lparr>layer_names = [''A'', ''B''], layer_dx = [1, 1 / 2], layer_thickness = [7 / 2, 1]\<rparr> = Inr g
     \<and> grid_manager.n_tot g = 6 \<and> dx_arr g = [7 / 8, 7 / 8, 7 / 8, 7 / 8, 1 / 2, 1 / 2]
     \<and> x_node g = [7 / 16, 21 / 16, 35 / 16, 49 / 16, 15 / 4, 17 / 4]
     \<and> x_node g ! 5 + dx_arr g ! 5 / 2 = 9 / 2"
proof -
  have e: "setup_grid \<lparr>layer_names = [''A'', ''B''], layer_dx = [1, 1 / 2], layer_thickness = [7 / 2, 1]\<rparr>
    = Inr \<lparr>layer_names = [''A'', ''B''], layer_dx = [1, 1 / 2],
        layer_thickness = [7 / 2, 1], n_layers = 2, grid_manager.n_tot = 6,
        mint_list = [3, 5], grid_manager.first_node_list = [0, 4],
        grid_manager.mat_nodes = [''A'', ''A'', ''A'', ''A'', ''B'', ''B''],
        dx_arr = [7 / 8, 7 / 8, 7 / 8, 7 / 8, 1 / 2, 1 / 2],
        internal_bounds = [(1, 3), (5, 5)], k_bounds = [(0, 3), (4, 5)],
        x_node = [7 / 16, 21 / 16, 35 / 16, 49 / 16, 15 / 4, 17 / 4]\<rparr>"
    by (simp add: grid_eval nat_numeral numeral_eq_Suc)
  from setup_grid_geometry [OF e] have "1 \<le> grid_manager.n_tot \<lparr>layer_names = [''A'', ''B''], layer_dx = [1, 1 / 2],
        layer_thickness = [7 / 2, 1], n_layers = 2, grid_manager.n_tot = 6,
        mint_list = [3, 5], grid_manager.first_node_list = [0, 4],
        grid_manager.mat_nodes = [''A'', ''A'', ''A'', ''A'', ''B'', ''B''],
        dx_arr = [7 / 8, 7 / 8, 7 / 8, 7 / 8, 1 / 2, 1 / 2],
        internal_bounds = [(1, 3), (5, 5)], k_bounds = [(0, 3), (4, 5)],
        x_node = [7 / 16, 21 / 16, 35 / 16, 49 / 16, 15 / 4, 17 / 4]\<rparr>"
    by blast
  then show ?thesis
    by (simp add: e)
qed

theorem setup_grid_geometry_counterexample:
  "layer_dx \<lparr>layer_names = [''A'', ''B''], layer_dx = [1, 1], layer_thickness = [1, 1]\<rparr> ! 0
     \<le> layer_thickness \<lparr>layer_names = [''A'', ''B''], layer_dx = [1, 1], layer_thickness = [1, 1]\<rparr> ! 0
   \<and> layer_dx \<lparr>layer_names = [''A'', ''B''], layer_dx = [1, 1], layer_thickness = [1, 1]\<rparr> ! 1
     \<le> layer_thickness \<lparr>layer_names = [''A'', ''B''], layer_dx = [1, 1], layer_thickness = [1, 1]\<rparr> ! 1
   \<and> setup_grid \<lparr>layer_names = [''A'', ''B''], layer_dx = [1, 1], layer_thickness = [1, 1]\<rparr>
       = Inl (ConfigurationError (SingleNodeLayers [0, 1]))"
  by (simp add: grid_eval)

lemma layer_loop_error_pos:
  assumes "\<forall>i\<in>set is. i < length (layer_thickness tb) \<and> i < length (layer_dx tb)
        \<and> i < length (layer_names tb) \<and> 0 < layer_dx tb ! i"
    and "efold (layer_body tb) is s = Inl e"
  shows "\<exists>k. e = ConfigurationError (DxGreaterThanThickness k)"
  using assms
proof (induction "is" arbitrary: s)
  case Nil
  then show ?case by simp
next
  case (Cons i "is")
  show ?case
  proof (cases "layer_thickness tb ! i < layer_dx tb ! i")
    case True
    with Cons.prems show ?thesis
      by (auto simp: layer_body_def py_nth_def)
  next
    case False
    with Cons.prems(1) have "1 \<le> layer_thickness tb ! i / layer_dx tb ! i" by simp
    then have "1 \<le> nodes_of tb i" unfolding nodes_of_def by (rule np_round_ge_1)
    with False Cons.prems(1) obtain s1 where s1: "layer_body tb i s = Inr s1"
      by (auto simp: layer_body_Inr)
    with Cons.prems(2) have "efold (layer_body tb) is s1 = Inl e" by simp
    with Cons.IH Cons.prems(1) show ?thesis by simp
  qed
qed

text \<open>
  \<^bold>\<open>C4\<close> (grid errors), for layer tables whose columns have one entry per layer and whose
  requested spacings are positive. \<^verbatim>\<open>setup_grid\<close> raises a configuration error exactly
  when some layer is thinner than its requested spacing, or there are several layers and
  one of them resolves to fewer than two nodes; a single layer that resolves to one node
  gives a grid with one node.
\<close>

theorem setup_grid_error_iff:
  assumes ldx: "length (layer_dx tb) = length (layer_names tb)"
    and lth: "length (layer_thickness tb) = length (layer_names tb)"
    and pos: "\<forall>i<length (layer_names tb). 0 < layer_dx tb ! i"
  shows "((\<exists>e. setup_grid tb = Inl (ConfigurationError e)) \<longleftrightarrow>
            (\<exists>i<length (layer_names tb). layer_thickness tb ! i < layer_dx tb ! i)
          \<or> (1 < length (layer_names tb) \<and> (\<exists>i<length (layer_names tb). nodes_of tb i < 2)))
      \<and> (length (layer_names tb) = 1 \<and> \<not> layer_thickness tb ! 0 < layer_dx tb ! 0
           \<and> nodes_of tb 0 = 1 \<longrightarrow> (\<exists>g. setup_grid tb = Inr g \<and> grid_manager.n_tot g = 1))"
proof -
  let ?nl = "length (layer_names tb)"
  let ?small = "\<exists>i<?nl. layer_thickness tb ! i < layer_dx tb ! i"
  let ?single = "1 < ?nl \<and> (\<exists>i<?nl. nodes_of tb i < 2)"
  have rng: "\<forall>i\<in>set [0..<?nl]. i < length (layer_thickness tb) \<and> i < length (layer_dx tb)
        \<and> i < length (layer_names tb) \<and> 0 < layer_dx tb ! i"
    using ldx lth pos by simp
  have A: "\<exists>e. setup_grid tb = Inl (ConfigurationError e)" if ?small
  proof (cases "efold (layer_body tb) [0..<?nl] layer_acc0")
    case (Inl e)
    from layer_loop_error_pos [OF rng Inl] obtain k
      where "e = ConfigurationError (DxGreaterThanThickness k)" by blast
    with Inl show ?thesis
      by (simp add: setup_grid_def)
  next
    case (Inr s)
    from layer_loop_result [OF Inr]
    have all: "\<forall>i\<in>set [0..<?nl]. \<not> layer_thickness tb ! i < layer_dx tb ! i" by simp
    from that obtain i where i: "i < ?nl" "layer_thickness tb ! i < layer_dx tb ! i" by blast
    from i(1) have "i \<in> set [0..<?nl]" by simp
    with all i(2) have False by blast
    then show ?thesis ..
  qed
  have B: "\<forall>i<?nl. 1 \<le> nodes_of tb i" if "\<not> ?small"
  proof (intro allI impI)
    fix i assume i: "i < ?nl"
    from that i have "layer_dx tb ! i \<le> layer_thickness tb ! i" by force
    moreover from pos i have "0 < layer_dx tb ! i" by blast
    ultimately have "1 \<le> layer_thickness tb ! i / layer_dx tb ! i" by simp
    then show "1 \<le> nodes_of tb i" unfolding nodes_of_def by (rule np_round_ge_1)
  qed
  have ok: "i < length (layer_thickness tb) \<and> i < length (layer_dx tb)
        \<and> i < length (layer_names tb)
        \<and> \<not> layer_thickness tb ! i < layer_dx tb ! i \<and> layer_dx tb ! i \<noteq> 0
        \<and> 1 \<le> nodes_of tb i \<and> nodes_of tb i \<noteq> 0"
    if ns: "\<not> ?small" and i: "i < ?nl" for i
  proof -
    from B [OF ns] i have n1: "1 \<le> nodes_of tb i" by blast
    then have n0: "nodes_of tb i \<noteq> 0" by linarith
    from pos i have "0 < layer_dx tb ! i" by blast
    then have d0: "layer_dx tb ! i \<noteq> 0" by simp
    from ns i have "\<not> layer_thickness tb ! i < layer_dx tb ! i" by blast
    with n1 n0 d0 i ldx lth show ?thesis by simp
  qed
  have loop_ok: "\<exists>s. efold (layer_body tb) [0..<?nl] layer_acc0 = Inr s
      \<and> acc_nodes_per_layer s = map (nodes_of tb) [0..<?nl]" if ns: "\<not> ?small"
  proof -
    have "\<forall>i\<in>set [0..<?nl]. i < length (layer_thickness tb) \<and> i < length (layer_dx tb)
        \<and> i < length (layer_names tb)
        \<and> \<not> layer_thickness tb ! i < layer_dx tb ! i \<and> layer_dx tb ! i \<noteq> 0 \<and> nodes_of tb i \<noteq> 0"
    proof
      fix i assume "i \<in> set [0..<?nl]"
      then have "i < ?nl" by simp
      from ok [OF ns this] show "i < length (layer_thickness tb) \<and> i < length (layer_dx tb)
        \<and> i < length (layer_names tb)
        \<and> \<not> layer_thickness tb ! i < layer_dx tb ! i \<and> layer_dx tb ! i \<noteq> 0 \<and> nodes_of tb i \<noteq> 0"
        by blast
    qed
    from layer_loop_succeeds [OF this] obtain s where
      loop: "efold (layer_body tb) [0..<?nl] layer_acc0 = Inr s" by blast
    have "acc_nodes_per_layer s = map (nodes_of tb) [0..<?nl]"
      using layer_loop_result [OF loop] by (simp add: layer_acc0_def)
    with loop show ?thesis by blast
  qed
  have C: "\<exists>e. setup_grid tb = Inl (ConfigurationError e)" if ns: "\<not> ?small" and sg: ?single
  proof -
    from loop_ok [OF ns] obtain s where
      loop: "efold (layer_body tb) [0..<?nl] layer_acc0 = Inr s"
      and npl: "acc_nodes_per_layer s = map (nodes_of tb) [0..<?nl]" by blast
    from sg obtain i where i: "i < ?nl" "nodes_of tb i < 2" by blast
    then have "i \<in> set (filter (\<lambda>i. acc_nodes_per_layer s ! i \<le> 1) [0..<?nl])"
      by (simp add: npl)
    then have ne: "filter (\<lambda>i. acc_nodes_per_layer s ! i \<le> 1) [0..<?nl] \<noteq> []"
      by (metis empty_iff list.set(1))
    from sg have m: "1 < ?nl" by blast
    show ?thesis
      unfolding setup_grid_def Let_def using ne m by (simp add: loop)
  qed
  have D: "\<exists>g. setup_grid tb = Inr g" if ns: "\<not> ?small" and sg: "\<not> ?single" and nl: "0 < ?nl"
  proof (rule setup_grid_succeeds [OF nl], intro allI impI)
    fix i assume i: "i < ?nl"
    note o = ok [OF ns i]
    have "2 \<le> nodes_of tb i" if "1 < ?nl"
    proof -
      from sg that i have "\<not> nodes_of tb i < 2" by blast
      then show ?thesis by linarith
    qed
    with o show "i < length (layer_thickness tb) \<and> i < length (layer_dx tb)
          \<and> \<not> layer_thickness tb ! i < layer_dx tb ! i \<and> layer_dx tb ! i \<noteq> 0
          \<and> 1 \<le> nodes_of tb i \<and> (1 < length (layer_names tb) \<longrightarrow> 2 \<le> nodes_of tb i)"
      by blast
  qed
  have E: "setup_grid tb = Inl IndexError" if "?nl = 0"
    using that by (simp add: setup_grid_def py_nth_def layer_acc0_def)
  have iff: "(\<exists>e. setup_grid tb = Inl (ConfigurationError e)) \<longleftrightarrow> ?small \<or> ?single"
  proof (cases "?small \<or> ?single")
    case True
    with A C show ?thesis by blast
  next
    case False
    then have ns: "\<not> ?small" and sg: "\<not> ?single" by blast+
    have "\<not> (\<exists>e. setup_grid tb = Inl (ConfigurationError e))"
    proof (cases "?nl = 0")
      case True
      from E [OF True] show ?thesis by simp
    next
      case False
      then have "0 < ?nl" by simp
      from D [OF ns sg this] show ?thesis by auto
    qed
    with False show ?thesis by blast
  qed
  have one: "\<exists>g. setup_grid tb = Inr g \<and> grid_manager.n_tot g = 1"
    if h: "?nl = 1 \<and> \<not> layer_thickness tb ! 0 < layer_dx tb ! 0 \<and> nodes_of tb 0 = 1"
  proof -
    from h have ns: "\<not> ?small" and sg: "\<not> ?single" and nl: "0 < ?nl" by auto
    from D [OF ns sg nl] obtain g where g: "setup_grid tb = Inr g" by blast
    from setup_grid_result [OF g] h have "grid_manager.n_tot g = 1" by simp
    with g show ?thesis by blast
  qed
  from iff one show ?thesis by blast
qed

theorem setup_grid_error_iff_witness:
  "(\<exists>g. setup_grid \<lparr>layer_names = [''A''], layer_dx = [1], layer_thickness = [1]\<rparr> = Inr g
       \<and> grid_manager.n_tot g = 1)
   \<and> (\<exists>e. setup_grid \<lparr>layer_names = [''A'', ''B''], layer_dx = [1, 1], layer_thickness = [3, 1]\<rparr>
       = Inl (ConfigurationError e))
   \<and> (\<exists>e. setup_grid \<lparr>layer_names = [''A'', ''B''], layer_dx = [1, 2], layer_thickness = [3, 1]\<rparr>
       = Inl (ConfigurationError e))"
proof -
  let ?t1 = "\<lparr>layer_names = [''A''], layer_dx = [1], layer_thickness = [1]\<rparr>"
  let ?t2 = "\<lparr>layer_names = [''A'', ''B''], layer_dx = [1, 1], layer_thickness = [3, 1]\<rparr>"
  let ?t3 = "\<lparr>layer_names = [''A'', ''B''], layer_dx = [1, 2], layer_thickness = [3, 1]\<rparr>"
  have p2: "\<forall>i<length (layer_names ?t2). 0 < layer_dx ?t2 ! i"
    and p3: "\<forall>i<length (layer_names ?t3). 0 < layer_dx ?t3 ! i"
    by (simp_all add: less_Suc_eq)
  have "\<exists>g. setup_grid ?t1 = Inr g \<and> grid_manager.n_tot g = 1"
    using setup_grid_error_iff [of ?t1] by (simp add: nodes_of_def np_round_def)
  moreover have "1 < length (layer_names ?t2)
      \<and> (\<exists>i<length (layer_names ?t2). nodes_of ?t2 i < 2)"
    by (auto simp: nodes_of_def np_round_def intro!: exI [of _ 1])
  with setup_grid_error_iff [of ?t2, OF _ _ p2]
  have "\<exists>e. setup_grid ?t2 = Inl (ConfigurationError e)" by simp
  moreover have "\<exists>i<length (layer_names ?t3). layer_thickness ?t3 ! i < layer_dx ?t3 ! i"
    by (auto intro!: exI [of _ 1])
  with setup_grid_error_iff [of ?t3, OF _ _ p3]
  have "\<exists>e. setup_grid ?t3 = Inl (ConfigurationError e)" by simp
  ultimately show ?thesis by blast
qed

theorem setup_grid_error_iff_counterexample:
  "layer_thickness \<lparr>layer_names = [''A'', ''B''], layer_dx = [0, 2], layer_thickness = [0, 1]\<rparr> ! 1
     < layer_dx \<lparr>layer_names = [''A'', ''B''], layer_dx = [0, 2], layer_thickness = [0, 1]\<rparr> ! 1
   \<and> setup_grid \<lparr>layer_names = [''A'', ''B''], layer_dx = [0, 2], layer_thickness = [0, 1]\<rparr>
       = Inl ZeroDivisionError"
  by (simp add: grid_eval)


lemma layer_node_count:
  assumes "setup_grid tb = Inr g" and "i < length (layer_names tb)"
  shows "mint_list g ! i - grid_manager.first_node_list g ! i + 1 = nodes_of tb i"
proof -
  note R = setup_grid_result [OF assms(1)]
  have "grid_manager.first_node_list g ! i = sum_list (map (nodes_of tb) [0..<i])"
    using R assms(2) by simp
  moreover have "mint_list g ! i = sum_list (map (nodes_of tb) [0..<Suc i]) - 1"
    using R assms(2) by (simp del: upt_Suc)
  ultimately show ?thesis by simp
qed

text \<open>
  \<^bold>\<open>C10\<close> (ties round to even). When thickness over requested spacing is \<open>k + 1/2\<close> for
  an integer \<open>k\<close>, the node count of the layer is the even one of \<open>k\<close> and \<open>k + 1\<close>, in the
  loop and in every grid \<^verbatim>\<open>setup_grid\<close> returns; 2.5 gives 2 nodes and 3.5 gives 4.
\<close>

theorem node_count_rounds_half_to_even:
  "(layer_thickness tb ! i / layer_dx tb ! i = of_int k + 1 / 2 \<longrightarrow>
      nodes_of tb i = (if even k then k else k + 1)
      \<and> (\<forall>g. setup_grid tb = Inr g \<and> i < length (layer_names tb) \<longrightarrow>
            mint_list g ! i - grid_manager.first_node_list g ! i + 1 = (if even k then k else k + 1)))
   \<and> (layer_thickness tb ! i / layer_dx tb ! i = 5 / 2 \<longrightarrow> nodes_of tb i = 2)
   \<and> (layer_thickness tb ! i / layer_dx tb ! i = 7 / 2 \<longrightarrow> nodes_of tb i = 4)"
proof -
  have tie: "nodes_of tb i = (if even k then k else k + 1)"
    if "layer_thickness tb ! i / layer_dx tb ! i = of_int k + 1 / 2" for k
    unfolding nodes_of_def using that by (rule np_round_half_even)
  have g: "mint_list g ! i - grid_manager.first_node_list g ! i + 1 = (if even k then k else k + 1)"
    if "layer_thickness tb ! i / layer_dx tb ! i = of_int k + 1 / 2"
      and "setup_grid tb = Inr g \<and> i < length (layer_names tb)" for k g
    using layer_node_count [of tb g i] tie [OF that(1)] that(2) by simp
  have a: "nodes_of tb i = 2" if "layer_thickness tb ! i / layer_dx tb ! i = 5 / 2"
    using tie [of 2] that by simp
  have b: "nodes_of tb i = 4" if "layer_thickness tb ! i / layer_dx tb ! i = 7 / 2"
    using tie [of 3] that by simp
  from tie g a b show ?thesis by blast
qed

theorem node_count_rounds_half_to_even_witness:
  "nodes_of \<lparr>layer_names = [''A''], layer_dx = [1], layer_thickness = [5 / 2]\<rparr> 0 = 2
   \<and> nodes_of \<lparr>layer_names = [''A''], layer_dx = [1], layer_thickness = [7 / 2]\<rparr> 0 = 4
   \<and> (\<exists>g. setup_grid \<lparr>layer_names = [''A''], layer_dx = [1], layer_thickness = [5 / 2]\<rparr> = Inr g
         \<and> grid_manager.n_tot g = 2 \<and> mint_list g ! 0 - grid_manager.first_node_list g ! 0 + 1 = 2)"
proof -
  let ?t1 = "\<lparr>layer_names = [''A''], layer_dx = [1], layer_thickness = [5 / 2]\<rparr>"
  let ?t2 = "\<lparr>layer_names = [''A''], layer_dx = [1], layer_thickness = [7 / 2]\<rparr>"
  have "nodes_of ?t1 0 = 2"
    using node_count_rounds_half_to_even [of ?t1 0 2] by simp
  moreover have "nodes_of ?t2 0 = 4"
    using node_count_rounds_half_to_even [of ?t2 0 3] by simp
  moreover have "\<exists>g. setup_grid ?t1 = Inr g
         \<and> grid_manager.n_tot g = 2 \<and> mint_list g ! 0 - grid_manager.first_node_list g ! 0 + 1 = 2"
    by (simp add: grid_eval nat_numeral numeral_eq_Suc)
  ultimately show ?thesis by blast
qed

subsection \<open>Per-node integrator: frame and clearing\<close>

lemma efold_invariant:
  assumes "efold f xs s = Inr s'" and "P s"
    and "\<And>x t t'. x \<in> set xs \<Longrightarrow> P t \<Longrightarrow> f x t = Inr t' \<Longrightarrow> P t'"
  shows "P s'"
  using assms
proof (induction xs arbitrary: s)
  case Nil
  then show ?case by simp
next
  case (Cons x xs)
  from Cons.prems(1) obtain t where t: "f x s = Inr t" and r: "efold f xs t = Inr s'"
    by (auto split: sum.splits)
  have Pt: "P t" using Cons.prems(3) [of x s t] Cons.prems(2) t by simp
  show ?case
  proof (rule Cons.IH [OF r Pt])
    fix y u u'
    assume "y \<in> set xs" "P u" "f y u = Inr u'"
    then show "P u'" using Cons.prems(3) [of y u u'] by simp
  qed
qed

lemma dict_set_at_Inr:
  "dict_set_at d key k v = Inr d' \<longleftrightarrow>
     (\<exists>a. d key = Some a \<and> k < length a \<and> d' = d(key \<mapsto> a[k := v]))"
  by (auto simp: dict_set_at_def split: option.splits)

lemma dict_set_at_frame:
  "dict_set_at d key k v = Inr d' \<Longrightarrow> k \<noteq> i \<Longrightarrow> node_val d' i = node_val d i"
  by (auto simp: dict_set_at_Inr node_val_def fun_eq_iff)

lemma arr_set_Inr: "arr_set a k v = Inr a' \<longleftrightarrow> k < length a \<and> a' = a[k := v]"
  by (auto simp: arr_set_def)

lemma write_loop_frame:
  assumes "efold (write_body src names k) js d = Inr d'" and "k \<noteq> i"
  shows "node_val d' i = node_val d i"
proof (rule efold_invariant [OF assms(1), where P = "\<lambda>t. node_val t i = node_val d i"])
  show "node_val d i = node_val d i" ..
next
  fix x t t'
  assume "node_val t i = node_val d i" and "write_body src names k x t = Inr t'"
  then show "node_val t' i = node_val d i"
    using assms(2) by (auto simp: write_body_def split: sum.splits dest: dict_set_at_frame)
qed

lemma clear_density_frame:
  assumes "efold (clear_density_body small k) names d = Inr d'" and "k \<noteq> i"
  shows "node_val d' i = node_val d i"
proof (rule efold_invariant [OF assms(1), where P = "\<lambda>t. node_val t i = node_val d i"])
  show "node_val d i = node_val d i" ..
next
  fix x t t'
  assume "node_val t i = node_val d i" and "clear_density_body small k x t = Inr t'"
  then show "node_val t' i = node_val d i"
    using assms(2)
    by (auto simp: clear_density_body_def split: sum.splits if_splits dest: dict_set_at_frame)
qed

lemma clear_rate_frame:
  assumes "efold (clear_rate_body k) names d = Inr d'" and "k \<noteq> i"
  shows "node_val d' i = node_val d i"
proof (rule efold_invariant [OF assms(1), where P = "\<lambda>t. node_val t i = node_val d i"])
  show "node_val d i = node_val d i" ..
next
  fix x t t'
  assume "node_val t i = node_val d i" and "clear_rate_body k x t = Inr t'"
  then show "node_val t' i = node_val d i"
    using assms(2) by (auto simp: clear_rate_body_def dest: dict_set_at_frame)
qed

lemma node_body_Inr:
  assumes "node_body ext t_arr T_in opts return_err act_ind (rm, T_out, errs) = Inr (rm', T_out', errs')"
  shows "\<exists>i sys_ind v0 T_i rsys my_sol my_status row dens rate_arr rate r_last trate hrate T_new c.
      py_nth (active_nodes rm) act_ind = Inr i
    \<and> py_nth (node_to_system_map rm) i = Inr sys_ind \<and> 0 \<le> sys_ind
    \<and> efold (v_in_body (species_density rm) (species_name_list rm) i)
             [0..<length (species_name_list rm)] (replicate (n_species rm + 1) 0) = Inr v0
    \<and> py_nth T_in i = Inr T_i
    \<and> py_nth (reaction_systems rm) (nat sys_ind) = Inr rsys
    \<and> solve_ode_node ext rsys t_arr (v0[n_species rm := T_i]) opts = Inr (my_sol, my_status)
    \<and> last_row my_sol = Inr row
    \<and> efold (write_body row (species_name_list rm) i)
             [0..<length (species_name_list rm)] (species_density rm) = Inr dens
    \<and> get_rates ext rsys row = Inr rate_arr
    \<and> efold (write_body rate_arr (species_name_list rm) i)
             [0..<length (species_name_list rm)] (species_rate rm) = Inr rate
    \<and> np_get rate_arr (- 1) = Inr r_last
    \<and> arr_set (temperature_rate rm) i r_last = Inr trate
    \<and> arr_set (heat_release_rate rm) i (r_last * rho_cp rm) = Inr hrate
    \<and> np_get row (- 1) = Inr T_new
    \<and> arr_set T_out i T_new = Inr T_out'
    \<and> check_complete ext rsys row = Inr c
    \<and> rm' = rm\<lparr>species_density := dens, species_rate := rate,
                  temperature_rate := trate, heat_release_rate := hrate,
                  inactive_node_list :=
                    (if c then inactive_node_list rm @ [act_ind] else inactive_node_list rm)\<rparr>
    \<and> errs' = (if return_err then errs @ [my_status] else errs)"
  using assms unfolding node_body_def Let_def
  by (auto split: sum.splits prod.splits if_splits)


lemma node_body_frame:
  assumes b: "node_body ext t_arr T_in opts return_err act_ind (rm, T_out, errs) = Inr (rm', T_out', errs')"
  shows "active_nodes rm' = active_nodes rm \<and> length T_out' = length T_out
     \<and> act_ind < length (active_nodes rm)
     \<and> set (inactive_node_list rm') \<subseteq> insert act_ind (set (inactive_node_list rm))
     \<and> (\<forall>i. i \<noteq> active_nodes rm ! act_ind \<longrightarrow>
            node_state rm' i = node_state rm i \<and> T_out' ! i = T_out ! i)"
proof -
  from node_body_Inr [OF b] obtain k dens rate trate hrate r_last T_new row rate_arr c where
    k: "py_nth (active_nodes rm) act_ind = Inr k"
    and d: "efold (write_body row (species_name_list rm) k)
             [0..<length (species_name_list rm)] (species_density rm) = Inr dens"
    and r: "efold (write_body rate_arr (species_name_list rm) k)
             [0..<length (species_name_list rm)] (species_rate rm) = Inr rate"
    and t: "arr_set (temperature_rate rm) k r_last = Inr trate"
    and h: "arr_set (heat_release_rate rm) k (r_last * rho_cp rm) = Inr hrate"
    and o: "arr_set T_out k T_new = Inr T_out'"
    and rm': "rm' = rm\<lparr>species_density := dens, species_rate := rate,
                  temperature_rate := trate, heat_release_rate := hrate,
                  inactive_node_list :=
                    (if c then inactive_node_list rm @ [act_ind] else inactive_node_list rm)\<rparr>"
    by blast
  from k have kk: "act_ind < length (active_nodes rm)" "k = active_nodes rm ! act_ind"
    by (auto simp: py_nth_def split: if_splits)
  have fr: "node_state rm' i = node_state rm i \<and> T_out' ! i = T_out ! i" if "i \<noteq> k" for i
  proof -
    from that have ki: "k \<noteq> i" by simp
    have "node_val dens i = node_val (species_density rm) i"
      by (rule write_loop_frame [OF d ki])
    moreover have "node_val rate i = node_val (species_rate rm) i"
      by (rule write_loop_frame [OF r ki])
    moreover have "trate ! i = temperature_rate rm ! i" "hrate ! i = heat_release_rate rm ! i"
      "T_out' ! i = T_out ! i"
      using t h o ki by (auto simp: arr_set_Inr)
    ultimately show ?thesis by (simp add: node_state_def rm')
  qed
  have "length T_out' = length T_out" using o by (auto simp: arr_set_Inr)
  moreover have "active_nodes rm' = active_nodes rm" by (simp add: rm')
  moreover have "set (inactive_node_list rm') \<subseteq> insert act_ind (set (inactive_node_list rm))"
    by (auto simp: rm')
  ultimately show ?thesis using fr kk by blast
qed

lemma node_loop_frame:
  assumes l: "efold (node_body ext t_arr T_in opts return_err) js (rm, T_out, errs)
      = Inr (rm', T_out', errs')"
  shows "active_nodes rm' = active_nodes rm \<and> length T_out' = length T_out
     \<and> set js \<subseteq> {..<length (active_nodes rm)}
     \<and> set (inactive_node_list rm') \<subseteq> set js \<union> set (inactive_node_list rm)
     \<and> (\<forall>i. i \<notin> (\<lambda>a. active_nodes rm ! a) ` set js \<longrightarrow>
            node_state rm' i = node_state rm i \<and> T_out' ! i = T_out ! i)"
  using l
proof (induction js arbitrary: rm T_out errs)
  case Nil
  then show ?case by simp
next
  case (Cons j js)
  from Cons.prems obtain rm1 T1 e1 where
    b: "node_body ext t_arr T_in opts return_err j (rm, T_out, errs) = Inr (rm1, T1, e1)"
    and r: "efold (node_body ext t_arr T_in opts return_err) js (rm1, T1, e1) = Inr (rm', T_out', errs')"
    by (auto split: sum.splits)
  note F = node_body_frame [OF b]
  note IH = Cons.IH [OF r]
  have act: "active_nodes rm1 = active_nodes rm" using F by blast
  have "active_nodes rm' = active_nodes rm" using IH act by simp
  moreover have "length T_out' = length T_out" using IH F by simp
  moreover have "set (j # js) \<subseteq> {..<length (active_nodes rm)}"
    using IH F act by auto
  moreover have "set (inactive_node_list rm') \<subseteq> set (j # js) \<union> set (inactive_node_list rm)"
    using IH F by auto
  moreover have "node_state rm' i = node_state rm i \<and> T_out' ! i = T_out ! i"
    if "i \<notin> (\<lambda>a. active_nodes rm ! a) ` set (j # js)" for i
  proof -
    from that have 1: "i \<noteq> active_nodes rm ! j"
      and 2: "i \<notin> (\<lambda>a. active_nodes rm1 ! a) ` set js" by (auto simp: act)
    from F 1 have "node_state rm1 i = node_state rm i \<and> T1 ! i = T_out ! i" by blast
    moreover from IH 2 have "node_state rm' i = node_state rm1 i \<and> T_out' ! i = T1 ! i" by blast
    ultimately show ?thesis by simp
  qed
  ultimately show ?case by blast
qed

lemma clear_node_body_frame:
  assumes b: "clear_node_body a rm = Inr rm'"
  shows "active_nodes rm' = active_nodes rm \<and> inactive_node_list rm' = inactive_node_list rm
     \<and> species_name_list rm' = species_name_list rm \<and> small_number rm' = small_number rm
     \<and> a < length (active_nodes rm)
     \<and> (\<forall>i. i \<noteq> active_nodes rm ! a \<longrightarrow> node_state rm' i = node_state rm i)"
proof -
  from b obtain k dens rate trate hrate where
    k: "py_nth (active_nodes rm) a = Inr k"
    and d: "efold (clear_density_body (small_number rm) k) (species_name_list rm)
             (species_density rm) = Inr dens"
    and r: "efold (clear_rate_body k) (species_name_list rm) (species_rate rm) = Inr rate"
    and t: "arr_set (temperature_rate rm) k 0 = Inr trate"
    and h: "arr_set (heat_release_rate rm) k 0 = Inr hrate"
    and rm': "rm' = rm\<lparr>species_density := dens, species_rate := rate,
                  temperature_rate := trate, heat_release_rate := hrate\<rparr>"
    unfolding clear_node_body_def by (auto split: sum.splits)
  from k have kk: "a < length (active_nodes rm)" "k = active_nodes rm ! a"
    by (auto simp: py_nth_def split: if_splits)
  have fr: "node_state rm' i = node_state rm i" if "i \<noteq> k" for i
  proof -
    from that have ki: "k \<noteq> i" by simp
    have "node_val dens i = node_val (species_density rm) i"
      by (rule clear_density_frame [OF d ki])
    moreover have "node_val rate i = node_val (species_rate rm) i"
      by (rule clear_rate_frame [OF r ki])
    moreover have "trate ! i = temperature_rate rm ! i" "hrate ! i = heat_release_rate rm ! i"
      using t h ki by (auto simp: arr_set_Inr)
    ultimately show ?thesis by (simp add: node_state_def rm')
  qed
  show ?thesis using fr kk by (simp add: rm')
qed

lemma clear_loop_frame:
  assumes l: "efold clear_node_body as rm = Inr rm'"
  shows "active_nodes rm' = active_nodes rm \<and> inactive_node_list rm' = inactive_node_list rm
     \<and> species_name_list rm' = species_name_list rm \<and> small_number rm' = small_number rm
     \<and> set as \<subseteq> {..<length (active_nodes rm)}
     \<and> (\<forall>i. i \<notin> (\<lambda>a. active_nodes rm ! a) ` set as \<longrightarrow> node_state rm' i = node_state rm i)"
  using l
proof (induction as arbitrary: rm)
  case Nil
  then show ?case by simp
next
  case (Cons a as)
  from Cons.prems obtain rm1 where
    b: "clear_node_body a rm = Inr rm1" and r: "efold clear_node_body as rm1 = Inr rm'"
    by (auto split: sum.splits)
  note F = clear_node_body_frame [OF b]
  note IH = Cons.IH [OF r]
  have act: "active_nodes rm1 = active_nodes rm" using F by blast
  have "node_state rm' i = node_state rm i"
    if "i \<notin> (\<lambda>a. active_nodes rm ! a) ` set (a # as)" for i
  proof -
    from that have 1: "i \<noteq> active_nodes rm ! a"
      and 2: "i \<notin> (\<lambda>a. active_nodes rm1 ! a) ` set as" by (auto simp: act)
    from F 1 have "node_state rm1 i = node_state rm i" by blast
    moreover from IH 2 have "node_state rm' i = node_state rm1 i" by blast
    ultimately show ?thesis by simp
  qed
  moreover have "set (a # as) \<subseteq> {..<length (active_nodes rm)}" using IH F act by auto
  ultimately show ?case using IH F by simp
qed

lemma np_delete_Inr:
  "np_delete a idx = Inr b \<longleftrightarrow>
     (\<forall>k\<in>set idx. k < length a) \<and> b = map ((!) a) (filter (\<lambda>k. k \<notin> set idx) [0..<length a])"
  by (auto simp: np_delete_def list_all_iff)

lemma np_delete_set:
  assumes "np_delete a idx = Inr b"
  shows "set b \<subseteq> set a"
    and "distinct a \<Longrightarrow> distinct b \<and> set b = set a - (\<lambda>k. a ! k) ` set idx"
proof -
  from assms have b: "b = map ((!) a) (filter (\<lambda>k. k \<notin> set idx) [0..<length a])"
    and idx: "\<forall>k\<in>set idx. k < length a"
    by (simp_all add: np_delete_Inr)
  show "set b \<subseteq> set a" unfolding b by auto
  assume d: "distinct a"
  have "distinct b"
    unfolding b by (auto simp: distinct_map inj_on_def d nth_eq_iff_index_eq)
  moreover have "set b = set a - (\<lambda>k. a ! k) ` set idx"
  proof
    show "set b \<subseteq> set a - (\<lambda>k. a ! k) ` set idx"
      unfolding b using idx d by (auto simp: nth_eq_iff_index_eq)
    show "set a - (\<lambda>k. a ! k) ` set idx \<subseteq> set b"
    proof
      fix x assume x: "x \<in> set a - (\<lambda>k. a ! k) ` set idx"
      then obtain k where k: "k < length a" "x = a ! k" by (auto simp: in_set_conv_nth)
      with x have "k \<notin> set idx" by auto
      with k show "x \<in> set b" unfolding b by auto
    qed
  qed
  ultimately show "distinct b \<and> set b = set a - (\<lambda>k. a ! k) ` set idx" by blast
qed

lemma clear_nodes_Inr:
  assumes "clear_nodes rm = Inr rm'"
  shows "\<exists>rm1. efold clear_node_body (inactive_node_list rm) rm = Inr rm1
     \<and> np_delete (active_nodes rm1) (inactive_node_list rm1) = Inr (active_nodes rm')
     \<and> rm' = rm1\<lparr>active_nodes := active_nodes rm', inactive_node_list := []\<rparr>"
  using assms unfolding clear_nodes_def by (auto split: sum.splits)


lemma solve_ode_Inr:
  assumes "solve_ode_all_nodes ext rm t_arr T_in opts return_err = Inr (rm', T_out, errs)"
  shows "\<exists>rm1. (if inactive_node_list rm = [] then rm1 = rm else clear_nodes rm = Inr rm1)
     \<and> efold (node_body ext t_arr T_in opts return_err) [0..<length (active_nodes rm1)]
           (rm1, T_in, []) = Inr (rm', T_out, errs)"
  using assms unfolding solve_ode_all_nodes_def by (auto split: sum.splits if_splits)

lemma nth_image_upt: "(\<lambda>a. xs ! a) ` set [0..<length xs] = set xs"
  by (auto simp: in_set_conv_nth)

lemma clear_nodes_frame:
  assumes c: "clear_nodes rm = Inr rm1"
  shows "set (active_nodes rm1) \<subseteq> set (active_nodes rm)
     \<and> inactive_node_list rm1 = []
     \<and> (\<forall>a\<in>set (inactive_node_list rm). a < length (active_nodes rm))
     \<and> (distinct (active_nodes rm) \<longrightarrow> distinct (active_nodes rm1)
           \<and> set (active_nodes rm1) = set (active_nodes rm) - set (pending_nodes rm))
     \<and> (\<forall>i. i \<notin> set (pending_nodes rm) \<longrightarrow> node_state rm1 i = node_state rm i)"
proof -
  from clear_nodes_Inr [OF c] obtain rm0 where
    l: "efold clear_node_body (inactive_node_list rm) rm = Inr rm0"
    and d: "np_delete (active_nodes rm0) (inactive_node_list rm0) = Inr (active_nodes rm1)"
    and rm1: "rm1 = rm0\<lparr>active_nodes := active_nodes rm1, inactive_node_list := []\<rparr>"
    by blast
  note F = clear_loop_frame [OF l]
  have a0: "active_nodes rm0 = active_nodes rm" "inactive_node_list rm0 = inactive_node_list rm"
    using F by simp_all
  have ns: "node_state rm1 i = node_state rm0 i" for i
    by (subst rm1) (simp add: node_state_def)
  have p: "set (pending_nodes rm) = (\<lambda>a. active_nodes rm ! a) ` set (inactive_node_list rm)"
    by (simp add: pending_nodes_def)
  have "set (active_nodes rm1) \<subseteq> set (active_nodes rm)"
    using np_delete_set(1) [OF d] a0 by simp
  moreover have "inactive_node_list rm1 = []" by (subst rm1) simp
  moreover have "\<forall>a\<in>set (inactive_node_list rm). a < length (active_nodes rm)"
    using F by auto
  moreover have "distinct (active_nodes rm1)
           \<and> set (active_nodes rm1) = set (active_nodes rm) - set (pending_nodes rm)"
    if "distinct (active_nodes rm)"
    using np_delete_set(2) [OF d] that a0 p by simp
  moreover have "node_state rm1 i = node_state rm i" if "i \<notin> set (pending_nodes rm)" for i
    using F that p ns by simp
  ultimately show ?thesis by blast
qed

theorem solve_ode_frame:
  assumes s: "solve_ode_all_nodes ext rm t_arr T_in opts return_err = Inr (rm', T_out, errs)"
  shows "length T_out = length T_in
     \<and> set (active_nodes rm') \<subseteq> set (active_nodes rm)
     \<and> (\<forall>i. i \<notin> set (active_nodes rm') \<longrightarrow> T_out ! i = T_in ! i)
     \<and> (\<forall>i. i \<notin> set (active_nodes rm') \<and> i \<notin> set (pending_nodes rm) \<longrightarrow>
            node_state rm' i = node_state rm i)"
proof -
  from solve_ode_Inr [OF s] obtain rm1 where
    c: "if inactive_node_list rm = [] then rm1 = rm else clear_nodes rm = Inr rm1"
    and l: "efold (node_body ext t_arr T_in opts return_err) [0..<length (active_nodes rm1)]
           (rm1, T_in, []) = Inr (rm', T_out, errs)"
    by blast
  note L = node_loop_frame [OF l]
  have act: "active_nodes rm' = active_nodes rm1" using L by blast
  have len: "length T_out = length T_in" using L by blast
  have fr: "node_state rm' i = node_state rm1 i \<and> T_out ! i = T_in ! i"
    if "i \<notin> set (active_nodes rm')" for i
  proof -
    from that act have "i \<notin> (\<lambda>a. active_nodes rm1 ! a) ` set [0..<length (active_nodes rm1)]"
      by (simp only: nth_image_upt) simp
    with L show ?thesis by blast
  qed
  have c1: "set (active_nodes rm1) \<subseteq> set (active_nodes rm)
      \<and> (\<forall>i. i \<notin> set (pending_nodes rm) \<longrightarrow> node_state rm1 i = node_state rm i)"
  proof (cases "inactive_node_list rm = []")
    case True
    with c show ?thesis by simp
  next
    case False
    with c have "clear_nodes rm = Inr rm1" by simp
    from clear_nodes_frame [OF this] show ?thesis by blast
  qed
  show ?thesis using len act fr c1 by auto
qed


lemma snap_idem: "snap small (snap small x) = snap small x"
  by (simp add: snap_def)

lemma clear_density_loop_node:
  "efold (clear_density_body small k) names d = Inr d' \<Longrightarrow>
   (\<forall>nm\<in>set names. node_val d k nm \<noteq> None)
   \<and> (\<forall>nm. node_val d' k nm =
         (if nm \<in> set names then map_option (snap small) (node_val d k nm) else node_val d k nm))"
proof (induction names arbitrary: d)
  case Nil
  then show ?case by simp
next
  case (Cons n names)
  from Cons.prems obtain d1 where
    b: "clear_density_body small k n d = Inr d1"
    and r: "efold (clear_density_body small k) names d1 = Inr d'"
    by (auto split: sum.splits)
  from b obtain a where a: "d n = Some a" "k < length a"
    and c: "if a ! k < small then d1 = d(n \<mapsto> a[k := 0]) else d1 = d"
    by (auto simp: clear_density_body_def dict_get_at_def dict_set_at_def
          split: option.splits if_splits)
  have d1: "d1 = d(n \<mapsto> a[k := snap small (a ! k)])"
  proof (cases "a ! k < small")
    case True
    with c show ?thesis by (simp add: snap_def)
  next
    case False
    have "d(n \<mapsto> a) = d" using a(1) by (rule fun_upd_idem)
    with False c show ?thesis by (simp add: snap_def)
  qed
  have v1: "node_val d1 k nm = (if nm = n then map_option (snap small) (node_val d k nm)
                               else node_val d k nm)" for nm
    using a by (simp add: d1 node_val_def)
  note IH = Cons.IH [OF r]
  have "node_val d k nm \<noteq> None" if "nm \<in> set (n # names)" for nm
  proof (cases "nm = n")
    case True
    with a show ?thesis by (simp add: node_val_def)
  next
    case False
    with that have "nm \<in> set names" by simp
    with IH have "node_val d1 k nm \<noteq> None" by blast
    with False v1 [of nm] show ?thesis by simp
  qed
  moreover have "node_val d' k nm =
         (if nm \<in> set (n # names) then map_option (snap small) (node_val d k nm)
          else node_val d k nm)" for nm
    using IH v1 [of nm] by (auto simp: option.map_comp comp_def snap_idem)
  ultimately show ?case by blast
qed

lemma clear_rate_loop_node:
  "efold (clear_rate_body k) names d = Inr d' \<Longrightarrow>
   (\<forall>nm. node_val d' k nm = (if nm \<in> set names then Some 0 else node_val d k nm))"
proof (induction names arbitrary: d)
  case Nil
  then show ?case by simp
next
  case (Cons n names)
  from Cons.prems obtain d1 where
    b: "clear_rate_body k n d = Inr d1"
    and r: "efold (clear_rate_body k) names d1 = Inr d'"
    by (auto split: sum.splits)
  from b obtain a where a: "d n = Some a" "k < length a" and d1: "d1 = d(n \<mapsto> a[k := 0])"
    by (auto simp: clear_rate_body_def dict_set_at_Inr)
  have v1: "node_val d1 k nm = (if nm = n then Some 0 else node_val d k nm)" for nm
    using a by (simp add: d1 node_val_def)
  from Cons.IH [OF r] v1 show ?case by auto
qed

lemma clear_node_body_own:
  assumes b: "clear_node_body a rm = Inr rm'"
  shows "\<forall>nm\<in>set (species_name_list rm).
        (\<exists>x. node_val (species_density rm) (active_nodes rm ! a) nm = Some x
           \<and> node_val (species_density rm') (active_nodes rm ! a) nm = Some (snap (small_number rm) x))
        \<and> node_val (species_rate rm') (active_nodes rm ! a) nm = Some 0"
    and "temperature_rate rm' ! (active_nodes rm ! a) = 0"
    and "heat_release_rate rm' ! (active_nodes rm ! a) = 0"
proof -
  from b obtain k dens rate trate hrate where
    k: "py_nth (active_nodes rm) a = Inr k"
    and d: "efold (clear_density_body (small_number rm) k) (species_name_list rm)
             (species_density rm) = Inr dens"
    and r: "efold (clear_rate_body k) (species_name_list rm) (species_rate rm) = Inr rate"
    and t: "arr_set (temperature_rate rm) k 0 = Inr trate"
    and h: "arr_set (heat_release_rate rm) k 0 = Inr hrate"
    and rm': "rm' = rm\<lparr>species_density := dens, species_rate := rate,
                  temperature_rate := trate, heat_release_rate := hrate\<rparr>"
    unfolding clear_node_body_def by (auto split: sum.splits)
  from k have kk: "k = active_nodes rm ! a"
    by (auto simp: py_nth_def split: if_splits)
  note D = clear_density_loop_node [OF d]
  note R = clear_rate_loop_node [OF r]
  show "\<forall>nm\<in>set (species_name_list rm).
        (\<exists>x. node_val (species_density rm) (active_nodes rm ! a) nm = Some x
           \<and> node_val (species_density rm') (active_nodes rm ! a) nm = Some (snap (small_number rm) x))
        \<and> node_val (species_rate rm') (active_nodes rm ! a) nm = Some 0"
  proof
    fix nm assume nm: "nm \<in> set (species_name_list rm)"
    with D obtain x where x: "node_val (species_density rm) k nm = Some x" by auto
    with D nm have "node_val dens k nm = Some (snap (small_number rm) x)" by simp
    moreover from R nm have "node_val rate k nm = Some 0" by simp
    ultimately show "(\<exists>x. node_val (species_density rm) (active_nodes rm ! a) nm = Some x
           \<and> node_val (species_density rm') (active_nodes rm ! a) nm = Some (snap (small_number rm) x))
        \<and> node_val (species_rate rm') (active_nodes rm ! a) nm = Some 0"
      using x by (simp add: rm' kk)
  qed
  show "temperature_rate rm' ! (active_nodes rm ! a) = 0"
    using t by (auto simp: rm' kk arr_set_Inr)
  show "heat_release_rate rm' ! (active_nodes rm ! a) = 0"
    using h by (auto simp: rm' kk arr_set_Inr)
qed


lemma node_cleared_cong:
  "node_state t' k = node_state t k \<Longrightarrow> node_cleared rm t' k = node_cleared rm t k"
  by (simp add: node_cleared_def node_state_def)

lemma clear_node_body_keeps_cleared:
  assumes P: "node_cleared rm t k"
    and same: "species_name_list t = species_name_list rm" "small_number t = small_number rm"
    and b: "clear_node_body b t = Inr t'"
  shows "node_cleared rm t' k"
proof (cases "active_nodes t ! b = k")
  case False
  then have "node_state t' k = node_state t k"
    using clear_node_body_frame [OF b] by simp
  from node_cleared_cong [OF this, of rm] P show ?thesis by simp
next
  case True
  have O1: "\<exists>x. node_val (species_density t) k nm = Some x
           \<and> node_val (species_density t') k nm = Some (snap (small_number rm) x)"
    and O2: "node_val (species_rate t') k nm = Some 0"
    if "nm \<in> set (species_name_list rm)" for nm
  proof -
    from that same have "nm \<in> set (species_name_list t)" by simp
    with clear_node_body_own(1) [OF b]
    have "(\<exists>x. node_val (species_density t) (active_nodes t ! b) nm = Some x
           \<and> node_val (species_density t') (active_nodes t ! b) nm = Some (snap (small_number t) x))
        \<and> node_val (species_rate t') (active_nodes t ! b) nm = Some 0" by (rule bspec)
    then show "\<exists>x. node_val (species_density t) k nm = Some x
           \<and> node_val (species_density t') k nm = Some (snap (small_number rm) x)"
      and "node_val (species_rate t') k nm = Some 0"
      unfolding True same by blast+
  qed
  have O3: "temperature_rate t' ! k = 0" "heat_release_rate t' ! k = 0"
    using clear_node_body_own(2,3) [OF b] True by simp_all
  have D: "\<exists>x. node_val (species_density rm) k nm = Some x
           \<and> node_val (species_density t') k nm = Some (snap (small_number rm) x)"
    if nm: "nm \<in> set (species_name_list rm)" for nm
  proof -
    from P nm obtain x where x: "node_val (species_density rm) k nm = Some x"
      and tx: "node_val (species_density t) k nm = Some (snap (small_number rm) x)"
      unfolding node_cleared_def by blast
    from O1 [OF nm] obtain y where y: "node_val (species_density t) k nm = Some y"
      and ty: "node_val (species_density t') k nm = Some (snap (small_number rm) y)"
      by blast
    from tx y have "y = snap (small_number rm) x" by simp
    with ty have "node_val (species_density t') k nm = Some (snap (small_number rm) x)"
      by (simp add: snap_idem)
    with x show ?thesis by blast
  qed
  show ?thesis
    unfolding node_cleared_def
  proof (intro conjI ballI)
    fix nm assume "nm \<in> set (species_name_list rm)"
    then show "\<exists>x. node_val (species_density rm) k nm = Some x
           \<and> node_val (species_density t') k nm = Some (snap (small_number rm) x)"
      by (rule D)
  next
    fix nm assume "nm \<in> set (species_name_list rm)"
    then show "node_val (species_rate t') k nm = Some 0" by (rule O2)
  next
    show "temperature_rate t' ! k = 0" by (rule O3(1))
    show "heat_release_rate t' ! k = 0" by (rule O3(2))
  qed
qed

lemma clear_loop_keeps_cleared:
  assumes "efold clear_node_body bs t = Inr t'" and "node_cleared rm t k"
    and "species_name_list t = species_name_list rm" "small_number t = small_number rm"
  shows "node_cleared rm t' k"
proof -
  have "node_cleared rm t' k \<and> species_name_list t' = species_name_list rm
      \<and> small_number t' = small_number rm"
  proof (rule efold_invariant [OF assms(1),
        where P = "\<lambda>u. node_cleared rm u k \<and> species_name_list u = species_name_list rm
          \<and> small_number u = small_number rm"])
    show "node_cleared rm t k \<and> species_name_list t = species_name_list rm
        \<and> small_number t = small_number rm" using assms by simp
  next
    fix x u u'
    assume u: "node_cleared rm u k \<and> species_name_list u = species_name_list rm
        \<and> small_number u = small_number rm" and b: "clear_node_body x u = Inr u'"
    from clear_node_body_keeps_cleared [OF _ _ _ b, of rm k] u
    have "node_cleared rm u' k" by simp
    moreover from clear_node_body_frame [OF b] u
    have "species_name_list u' = species_name_list rm \<and> small_number u' = small_number rm"
      by simp
    ultimately show "node_cleared rm u' k \<and> species_name_list u' = species_name_list rm
        \<and> small_number u' = small_number rm" by simp
  qed
  then show ?thesis by simp
qed

lemma clear_loop_clears:
  assumes l: "efold clear_node_body as rm = Inr rm0" and a: "a \<in> set as"
  shows "node_cleared rm rm0 (active_nodes rm ! a)"
proof -
  let ?k = "active_nodes rm ! a"
  from a have "\<exists>b\<in>set as. active_nodes rm ! b = ?k" by blast
  from split_list_first_prop [OF this] obtain xs b ys where
    as: "as = xs @ b # ys" and b: "active_nodes rm ! b = ?k"
    and xs: "\<forall>y\<in>set xs. active_nodes rm ! y \<noteq> ?k"
    by blast
  from l obtain rx rb where
    lx: "efold clear_node_body xs rm = Inr rx"
    and bb: "clear_node_body b rx = Inr rb"
    and ly: "efold clear_node_body ys rb = Inr rm0"
    unfolding as efold_append by (auto split: sum.splits)
  note FX = clear_loop_frame [OF lx]
  have "?k \<notin> (\<lambda>a. active_nodes rm ! a) ` set xs"
  proof
    assume "?k \<in> (\<lambda>a. active_nodes rm ! a) ` set xs"
    then obtain y where "y \<in> set xs" "?k = active_nodes rm ! y" by (rule imageE)
    with xs show False by (metis)
  qed
  with FX have sx: "node_state rx ?k = node_state rm ?k" by blast
  have ax: "active_nodes rx = active_nodes rm" "species_name_list rx = species_name_list rm"
    "small_number rx = small_number rm" using FX by simp_all
  note O = clear_node_body_own [OF bb, unfolded ax b]
  have c: "node_cleared rm rb ?k"
    unfolding node_cleared_def using O sx by (simp add: node_state_def)
  have n: "species_name_list rb = species_name_list rm"
    and sm: "small_number rb = small_number rm"
    using clear_node_body_frame [OF bb] ax by simp_all
  show ?thesis
    by (rule clear_loop_keeps_cleared [OF ly c n sm])
qed

lemma later_call_active:
  "later_call ext rm rm' \<Longrightarrow> set (active_nodes rm') \<subseteq> set (active_nodes rm)"
proof (induction rule: later_call.induct)
  case (later_refl rm)
  show ?case by simp
next
  case (later_step rm rm1 t_arr T_in opts return_err rm2 T_out errs)
  from solve_ode_frame [OF later_step.hyps(2)]
  have "set (active_nodes rm2) \<subseteq> set (active_nodes rm1)" by blast
  with later_step.IH show ?case by blast
qed

theorem pending_nodes_cleared:
  assumes d: "distinct (active_nodes rm)"
    and s: "solve_ode_all_nodes ext rm t_arr T_in opts return_err = Inr (rm', T_out, errs)"
    and a: "a \<in> set (inactive_node_list rm)"
  shows "a < length (active_nodes rm)
     \<and> (\<exists>rm1. clear_nodes rm = Inr rm1
           \<and> node_cleared rm rm1 (active_nodes rm ! a)
           \<and> active_nodes rm ! a \<notin> set (active_nodes rm1)
           \<and> efold (node_body ext t_arr T_in opts return_err) [0..<length (active_nodes rm1)]
                (rm1, T_in, []) = Inr (rm', T_out, errs))
     \<and> node_cleared rm rm' (active_nodes rm ! a)
     \<and> T_out ! (active_nodes rm ! a) = T_in ! (active_nodes rm ! a)
     \<and> (\<forall>rm''. later_call ext rm' rm'' \<longrightarrow> active_nodes rm ! a \<notin> set (active_nodes rm''))"
proof -
  let ?k = "active_nodes rm ! a"
  from a have ne: "inactive_node_list rm \<noteq> []" by auto
  with solve_ode_Inr [OF s] obtain rm1 where
    c: "clear_nodes rm = Inr rm1"
    and l: "efold (node_body ext t_arr T_in opts return_err) [0..<length (active_nodes rm1)]
           (rm1, T_in, []) = Inr (rm', T_out, errs)"
    by auto
  note C = clear_nodes_frame [OF c]
  from C a have al: "a < length (active_nodes rm)" by blast
  have pend: "?k \<in> set (pending_nodes rm)"
    using a by (simp add: pending_nodes_def)
  from C d pend have out1: "?k \<notin> set (active_nodes rm1)" by simp
  from clear_nodes_Inr [OF c] obtain rm0 where
    l0: "efold clear_node_body (inactive_node_list rm) rm = Inr rm0"
    and rm1: "rm1 = rm0\<lparr>active_nodes := active_nodes rm1, inactive_node_list := []\<rparr>"
    by blast
  have "node_state rm1 ?k = node_state rm0 ?k"
    by (subst rm1) (simp add: node_state_def)
  from node_cleared_cong [OF this, of rm] clear_loop_clears [OF l0 a]
  have cl1: "node_cleared rm rm1 ?k" by simp
  note L = node_loop_frame [OF l]
  have act: "active_nodes rm' = active_nodes rm1" using L by blast
  from out1 have "?k \<notin> (\<lambda>a. active_nodes rm1 ! a) ` set [0..<length (active_nodes rm1)]"
    by (simp only: nth_image_upt) simp
  with L have fr: "node_state rm' ?k = node_state rm1 ?k" "T_out ! ?k = T_in ! ?k" by blast+
  from node_cleared_cong [OF fr(1), of rm] cl1 have cl: "node_cleared rm rm' ?k" by simp
  have perm: "?k \<notin> set (active_nodes rm'')" if "later_call ext rm' rm''" for rm''
    using later_call_active [OF that] out1 act by auto
  from al c cl1 out1 l cl fr(2) perm show ?thesis by blast
qed

subsection \<open>Reaction grouping\<close>

lemma active_cell_loop:
  "efold (active_cell_body nc num) cells row0 = Inr row \<Longrightarrow> length row0 = nat nc \<Longrightarrow>
   length row = length row0
   \<and> (\<forall>c<length row0. row ! c = (if int c + 1 \<in> set cells then 1 else row0 ! c))"
proof (induction cells arbitrary: row0)
  case Nil
  then show ?case by simp
next
  case (Cons cell cells)
  from Cons.prems(1) obtain row1 where
    b: "active_cell_body nc num cell row0 = Inr row1"
    and r: "efold (active_cell_body nc num) cells row1 = Inr row"
    by (auto split: sum.splits)
  from b have cell: "1 \<le> cell" "cell \<le> nc" and row1: "row1 = row0[nat (cell - 1) := 1]"
    by (auto simp: active_cell_body_def split: if_splits)
  have l1: "length row1 = nat nc" using Cons.prems(2) row1 by simp
  note IH = Cons.IH [OF r l1]
  have "row ! c = (if int c + 1 \<in> set (cell # cells) then 1 else row0 ! c)"
    if c: "c < length row0" for c
  proof -
    from c l1 Cons.prems(2) have c1: "c < length row1" by simp
    have eq: "nat (cell - 1) = c \<longleftrightarrow> int c + 1 = cell" using cell by linarith
    have "row1 ! c = (if int c + 1 = cell then 1 else row0 ! c)"
      using c eq by (simp add: row1 nth_list_update)
    with IH c1 show ?thesis by auto
  qed
  with IH l1 Cons.prems(2) show ?case by simp
qed

lemma reaction_body_Inr:
  assumes b: "reaction_body ext rm rxn_dict (sort (map fst rxn_dict)) i (fc, ms, ar) = Inr (fc', ms', ar')"
    and z: "ar ! i = replicate (nat (n_cells rm)) 0"
  shows "\<exists>info m col c' row.
      rxn_at rxn_dict i = Some info
    \<and> rxn_model_factory ext info (rm_material_info rm) = Inr (m, col)
    \<and> assign_column (n_species rm) col = Inr c'
    \<and> length row = nat (n_cells rm)
    \<and> (\<forall>c<nat (n_cells rm). row ! c = (if flagged rxn_dict i (int c + 1) then 1 else 0))
    \<and> fc' = fc[i := c'] \<and> ms' = ms @ [m] \<and> ar' = ar[i := row]"
proof -
  from b obtain info0 where i0: "map_of rxn_dict (sort (map fst rxn_dict) ! i) = Some info0"
    by (auto simp: reaction_body_def split: option.splits)
  define info where "info = (if rxn_Type info0 = None then info0\<lparr>rxn_Type := Some ''Basic''\<rparr> else info0)"
  have ra: "rxn_at rxn_dict i = Some info"
    by (simp add: rxn_at_def i0 info_def)
  have ac: "Active_Cells info = Active_Cells info0" by (simp add: info_def)
  have b': "(case rxn_model_factory ext info (rm_material_info rm) of
                Inl e \<Rightarrow> Inl e
              | Inr (my_rxn_model, frac_mat_col) \<Rightarrow>
             (case assign_column (n_species rm) frac_mat_col of
                Inl e \<Rightarrow> Inl e
              | Inr col \<Rightarrow>
             (case (case Active_Cells info of
                      None \<Rightarrow> Inr (replicate (nat (n_cells rm)) 1)
                    | Some cells \<Rightarrow>
                        efold (active_cell_body (n_cells rm) (sort (map fst rxn_dict) ! i)) cells (ar ! i)) of
                Inl e \<Rightarrow> Inl e
              | Inr row \<Rightarrow>
                  Inr (fc[i := col], ms @ [my_rxn_model], ar[i := row]))))
         = Inr (fc', ms', ar')"
    using b unfolding reaction_body_def Let_def info_def by (simp add: i0)
  then obtain m col c' row where
    f: "rxn_model_factory ext info (rm_material_info rm) = Inr (m, col)"
    and a: "assign_column (n_species rm) col = Inr c'"
    and rw: "(case Active_Cells info of
                None \<Rightarrow> Inr (replicate (nat (n_cells rm)) 1)
              | Some cells \<Rightarrow>
                  efold (active_cell_body (n_cells rm) (sort (map fst rxn_dict) ! i)) cells (ar ! i))
             = Inr row"
    and res: "fc' = fc[i := c']" "ms' = ms @ [m]" "ar' = ar[i := row]"
    by (auto split: sum.splits prod.splits)
  have "length row = nat (n_cells rm)
      \<and> (\<forall>c<nat (n_cells rm). row ! c = (if flagged rxn_dict i (int c + 1) then 1 else 0))"
  proof (cases "Active_Cells info")
    case None
    with rw have "row = replicate (nat (n_cells rm)) 1" by simp
    with None ra show ?thesis by (simp add: flagged_def)
  next
    case (Some cells)
    with rw have l: "efold (active_cell_body (n_cells rm) (sort (map fst rxn_dict) ! i)) cells
        (replicate (nat (n_cells rm)) 0) = Inr row" by (simp add: z)
    from active_cell_loop [OF l] Some ra show ?thesis by (simp add: flagged_def)
  qed
  with ra f a res show ?thesis by blast
qed

lemma index_of_nth: "x \<in> set xs \<Longrightarrow> index_of x xs < length xs \<and> xs ! index_of x xs = x"
  by (induction xs) auto

lemma emap_Inr:
  "emap f xs = Inr ys \<Longrightarrow> length ys = length xs \<and> (\<forall>s<length xs. f (xs ! s) = Inr (ys ! s))"
proof (induction xs arbitrary: ys)
  case Nil
  then show ?case by simp
next
  case (Cons x xs)
  from Cons.prems obtain y ys' where y: "f x = Inr y" and r: "emap f xs = Inr ys'"
    and ys: "ys = y # ys'"
    by (auto split: sum.splits)
  from Cons.IH [OF r] y show ?case by (auto simp: ys nth_Cons')
qed

lemma build_system_Inr:
  "build_system rm fc ms col = Inr sys \<Longrightarrow>
   sys = \<lparr>sys_frac_cols = map ((!) fc) (filter (\<lambda>j. col ! j \<noteq> 0) [0..<length col]),
          sys_model_list = map ((!) ms) (filter (\<lambda>j. col ! j \<noteq> 0) [0..<length col]),
          sys_rho_cp = rho_cp rm, sys_dsc_info = dsc_info rm\<rparr>"
  by (auto simp: build_system_def Let_def split: if_splits)


lemma reaction_loop_prefix:
  "k \<le> length rxn_dict \<Longrightarrow>
   efold (reaction_body ext rm rxn_dict (sort (map fst rxn_dict))) [0..<k]
     (replicate (length rxn_dict) (replicate (n_species rm) 0), [],
      replicate (length rxn_dict) (replicate (nat (n_cells rm)) 0)) = Inr (fc, ms, ar) \<Longrightarrow>
   length fc = length rxn_dict \<and> length ar = length rxn_dict \<and> length ms = k
   \<and> (\<forall>j<k. rxn_done ext rm rxn_dict fc ms ar j)
   \<and> (\<forall>j. k \<le> j \<and> j < length rxn_dict \<longrightarrow> ar ! j = replicate (nat (n_cells rm)) 0)"
proof (induction k arbitrary: fc ms ar)
  case 0
  then show ?case by auto
next
  case (Suc k)
  let ?body = "reaction_body ext rm rxn_dict (sort (map fst rxn_dict))"
  let ?init = "(replicate (length rxn_dict) (replicate (n_species rm) 0), [] :: 'b list,
      replicate (length rxn_dict) (replicate (nat (n_cells rm)) (0::int)))"
  from Suc.prems(2) have "efold ?body ([0..<k] @ [k]) ?init = Inr (fc, ms, ar)" by simp
  then obtain fc0 ms0 ar0 where
    l0: "efold ?body [0..<k] ?init = Inr (fc0, ms0, ar0)"
    and b: "?body k (fc0, ms0, ar0) = Inr (fc, ms, ar)"
    unfolding efold_snoc_Inr by auto
  from Suc.prems(1) have k: "k \<le> length rxn_dict" "k < length rxn_dict" by simp_all
  note IH = Suc.IH [OF k(1) l0]
  have len0: "length fc0 = length rxn_dict" "length ar0 = length rxn_dict" "length ms0 = k"
    using IH by simp_all
  have z: "ar0 ! k = replicate (nat (n_cells rm)) 0" using IH k by simp
  from reaction_body_Inr [OF b z] obtain info m col c' row where
    ra: "rxn_at rxn_dict k = Some info"
    and f: "rxn_model_factory ext info (rm_material_info rm) = Inr (m, col)"
    and a: "assign_column (n_species rm) col = Inr c'"
    and lr: "length row = nat (n_cells rm)"
    and row: "\<forall>c<nat (n_cells rm). row ! c = (if flagged rxn_dict k (int c + 1) then 1 else 0)"
    and res: "fc = fc0[k := c']" "ms = ms0 @ [m]" "ar = ar0[k := row]"
    by blast
  have mk: "ms ! k = m" using len0(3) by (simp add: res nth_append)
  have new: "rxn_done ext rm rxn_dict fc ms ar k"
    unfolding rxn_done_def mk using ra f a lr row k len0 by (simp add: res)
  have old: "rxn_done ext rm rxn_dict fc ms ar j" if j: "j < k" for j
  proof -
    from IH j have "rxn_done ext rm rxn_dict fc0 ms0 ar0 j" by simp
    moreover have "fc ! j = fc0 ! j" "ms ! j = ms0 ! j" "ar ! j = ar0 ! j"
      using j len0 by (simp_all add: res nth_append)
    ultimately show ?thesis by (simp add: rxn_done_def)
  qed
  have all: "\<forall>j<Suc k. rxn_done ext rm rxn_dict fc ms ar j"
    using new old by (auto simp: less_Suc_eq)
  have rest: "\<forall>j. Suc k \<le> j \<and> j < length rxn_dict \<longrightarrow> ar ! j = replicate (nat (n_cells rm)) 0"
    using IH by (simp add: res)
  show ?case using len0 all rest by (simp add: res)
qed

lemma map_all_systems_result:
  assumes "map_all_systems A key = (n2s, us)"
  shows "us = remdups (map (act_column A) [0..<snd (shape A)])"
    and "length us = card (act_column A ` {..<snd (shape A)})"
    and "length n2s = length key"
    and "\<forall>i<length key. 1 \<le> key ! i \<and> key ! i \<le> int (snd (shape A)) \<longrightarrow>
           (\<exists>s<length us. n2s ! i = int s \<and> us ! s = act_column A (nat (key ! i - 1)))"
    and "\<forall>i<length key. \<not> (1 \<le> key ! i \<and> key ! i \<le> int (snd (shape A))) \<longrightarrow> n2s ! i = - 1"
proof -
  let ?nc = "snd (shape A)"
  let ?cols = "map (act_column A) [0..<?nc]"
  from assms have us: "us = remdups ?cols"
    and n2s: "n2s = map (\<lambda>c. if 1 \<le> c \<and> c \<le> int ?nc
                     then int (index_of (act_column A (nat (c - 1))) us) else - 1) key"
    by (auto simp: map_all_systems_def Let_def)
  show "us = remdups ?cols" by (rule us)
  have "set ?cols = act_column A ` {..<?nc}" by (auto simp: atLeast0LessThan)
  then show "length us = card (act_column A ` {..<?nc})"
    unfolding us by (simp add: length_remdups_card_conv del: set_map set_upt)
  show "length n2s = length key" by (simp add: n2s)
  show "\<forall>i<length key. 1 \<le> key ! i \<and> key ! i \<le> int ?nc \<longrightarrow>
           (\<exists>s<length us. n2s ! i = int s \<and> us ! s = act_column A (nat (key ! i - 1)))"
  proof (intro allI impI)
    fix i assume i: "i < length key" and c: "1 \<le> key ! i \<and> key ! i \<le> int ?nc"
    let ?col = "act_column A (nat (key ! i - 1))"
    from c have "nat (key ! i - 1) < ?nc" by linarith
    then have "?col \<in> set us" unfolding us by simp
    from index_of_nth [OF this] i c
    show "\<exists>s<length us. n2s ! i = int s \<and> us ! s = ?col"
      by (auto simp: n2s)
  qed
  show "\<forall>i<length key. \<not> (1 \<le> key ! i \<and> key ! i \<le> int ?nc) \<longrightarrow> n2s ! i = - 1"
    by (simp add: n2s)
qed


lemma load_reactions_Inr:
  assumes "load_reactions ext rm1 rxn_dict = Inr rm"
  shows "\<exists>fc ms ar n2s us systems.
      0 \<le> n_cells rm1
    \<and> reaction_loop ext rm1 rxn_dict = Inr (fc, ms, ar)
    \<and> map_all_systems \<lparr>shape = (length rxn_dict, nat (n_cells rm1)), rows = ar\<rparr>
          (cell_node_key rm1) = (n2s, us)
    \<and> emap (build_system rm1 fc ms) us = Inr systems
    \<and> rm = reaction_manager1.extend rm1
          \<lparr>n_rxn = length rxn_dict, model_list = ms, node_to_system_map = n2s,
           reaction_systems = systems\<rparr>"
  using assms unfolding load_reactions_def Let_def
  by (auto split: sum.splits prod.splits if_splits)

theorem reaction_grouping:
  assumes lr: "load_reactions ext rm1 rxn_dict = Inr rm"
  shows "\<exists>frac_cols act_rows.
      reaction_loop ext rm1 rxn_dict = Inr (frac_cols, model_list rm, act_rows)
    \<and> length act_rows = length rxn_dict \<and> length frac_cols = length rxn_dict
    \<and> length (model_list rm) = length rxn_dict
    \<and> (\<forall>j<length rxn_dict. rxn_done ext rm1 rxn_dict frac_cols (model_list rm) act_rows j)
    \<and> length (reaction_systems rm)
        = card ((\<lambda>c. map (\<lambda>r. r ! c) act_rows) ` {..<nat (n_cells rm1)})
    \<and> length (node_to_system_map rm) = length (cell_node_key rm1)
    \<and> (\<forall>i<length (cell_node_key rm1).
          1 \<le> cell_node_key rm1 ! i \<and> cell_node_key rm1 ! i \<le> n_cells rm1 \<longrightarrow>
          (\<exists>s<length (reaction_systems rm).
              node_to_system_map rm ! i = int s
            \<and> reaction_systems rm ! s =
                \<lparr>sys_frac_cols = map ((!) frac_cols)
                   (filter (\<lambda>j. flagged rxn_dict j (cell_node_key rm1 ! i)) [0..<length rxn_dict]),
                 sys_model_list = map ((!) (model_list rm))
                   (filter (\<lambda>j. flagged rxn_dict j (cell_node_key rm1 ! i)) [0..<length rxn_dict]),
                 sys_rho_cp = rho_cp rm1, sys_dsc_info = dsc_info rm1\<rparr>))"
proof -
  let ?nr = "length rxn_dict"
  let ?nc = "nat (n_cells rm1)"
  let ?key = "cell_node_key rm1"
  from load_reactions_Inr [OF lr] obtain fc ms ar n2s us systems where
    nc: "0 \<le> n_cells rm1"
    and loop: "reaction_loop ext rm1 rxn_dict = Inr (fc, ms, ar)"
    and mas: "map_all_systems \<lparr>shape = (?nr, ?nc), rows = ar\<rparr> ?key = (n2s, us)"
    and em: "emap (build_system rm1 fc ms) us = Inr systems"
    and rm: "rm = reaction_manager1.extend rm1
          \<lparr>n_rxn = ?nr, model_list = ms, node_to_system_map = n2s, reaction_systems = systems\<rparr>"
    by blast
  have f: "model_list rm = ms" "node_to_system_map rm = n2s" "reaction_systems rm = systems"
    by (simp_all add: rm reaction_manager1.extend_def)
  let ?A = "\<lparr>shape = (?nr, ?nc), rows = ar\<rparr>"
  have col: "act_column ?A c = map (\<lambda>r. r ! c) ar" for c
    by (simp add: act_column_def)
  from loop have "efold (reaction_body ext rm1 rxn_dict (sort (map fst rxn_dict))) [0..<?nr]
     (replicate ?nr (replicate (n_species rm1) 0), [],
      replicate ?nr (replicate ?nc 0)) = Inr (fc, ms, ar)"
    by (simp add: reaction_loop_def Let_def)
  from reaction_loop_prefix [OF le_refl this]
  have len: "length fc = ?nr" "length ar = ?nr" "length ms = ?nr"
    and dn: "\<forall>j<?nr. rxn_done ext rm1 rxn_dict fc ms ar j"
    by simp_all
  note M = map_all_systems_result [OF mas]
  note E = emap_Inr [OF em]
  have card: "length systems = card ((\<lambda>c. map (\<lambda>r. r ! c) ar) ` {..<?nc})"
    using M(2) E by (simp add: col)
  have node: "\<exists>s<length systems. n2s ! i = int s
            \<and> systems ! s =
                \<lparr>sys_frac_cols = map ((!) fc) (filter (\<lambda>j. flagged rxn_dict j (?key ! i)) [0..<?nr]),
                 sys_model_list = map ((!) ms) (filter (\<lambda>j. flagged rxn_dict j (?key ! i)) [0..<?nr]),
                 sys_rho_cp = rho_cp rm1, sys_dsc_info = dsc_info rm1\<rparr>"
    if i: "i < length ?key" and c: "1 \<le> ?key ! i \<and> ?key ! i \<le> n_cells rm1" for i
  proof -
    let ?c = "nat (?key ! i - 1)"
    from c have c': "1 \<le> ?key ! i \<and> ?key ! i \<le> int (snd (shape ?A))" by simp
    from M(4) i c' obtain s where s: "s < length us" "n2s ! i = int s"
      and us: "us ! s = act_column ?A ?c" by blast
    from E s(1) have b: "build_system rm1 fc ms (us ! s) = Inr (systems ! s)" by simp
    have cc: "?c < ?nc" "int ?c + 1 = ?key ! i" using c by linarith+
    have fl: "filter (\<lambda>j. (us ! s) ! j \<noteq> 0) [0..<length (us ! s)]
        = filter (\<lambda>j. flagged rxn_dict j (?key ! i)) [0..<?nr]"
    proof -
      have l: "length (us ! s) = ?nr" by (simp add: us col len)
      have "(us ! s) ! j \<noteq> 0 \<longleftrightarrow> flagged rxn_dict j (?key ! i)" if "j \<in> set [0..<?nr]" for j
      proof -
        from that have j: "j < ?nr" by simp
        with dn have "rxn_done ext rm1 rxn_dict fc ms ar j" by simp
        then have "ar ! j ! ?c = (if flagged rxn_dict j (int ?c + 1) then 1 else 0)"
          using cc(1) unfolding rxn_done_def by blast
        then have "ar ! j ! ?c = (if flagged rxn_dict j (?key ! i) then 1 else 0)"
          unfolding cc(2) .
        moreover have "(us ! s) ! j = ar ! j ! ?c" using j by (simp add: us col len)
        ultimately show ?thesis by simp
      qed
      then show ?thesis unfolding l by (rule filter_cong [OF refl])
    qed
    from build_system_Inr [OF b] have "systems ! s =
        \<lparr>sys_frac_cols = map ((!) fc) (filter (\<lambda>j. flagged rxn_dict j (?key ! i)) [0..<?nr]),
         sys_model_list = map ((!) ms) (filter (\<lambda>j. flagged rxn_dict j (?key ! i)) [0..<?nr]),
         sys_rho_cp = rho_cp rm1, sys_dsc_info = dsc_info rm1\<rparr>"
      unfolding fl .
    with s E show ?thesis by auto
  qed
  show ?thesis
    unfolding f using loop len dn card M(3) node by blast
qed

end
